theory Spec2Isabelle
  imports Main
begin

section \<open>Data model\<close>

text \<open>
  The document routes of \<^verbatim>\<open>src/api/document.js\<close> work on five collections (documents,
  document versions, comments, likes, custom forms), on the community's creation limit and
  on the notifier. A collection is a list of records, each with its \<^verbatim>\<open>_id\<close>; an
  ObjectId is a natural number and a fresh one is taken from a counter. Version numbers
  are JavaScript numbers that only ever grow by one from 1, modelled as unbounded naturals.
\<close>

type_synonym oid = nat

text \<open>
  The value found under \<^verbatim>\<open>content.closingDate\<close>: the property may be missing, null, a
  string that \<^verbatim>\<open>Date\<close> parses (kept as its time value in milliseconds; such a string
  is never empty) or any other string.
\<close>

datatype jsvalue = Undefined | Null | DateString int | OtherString string

text \<open>JavaScript truthiness of such a value (\<^verbatim>\<open>if (x)\<close>).\<close>

fun truthy :: "jsvalue \<Rightarrow> bool" where
  "truthy Undefined = False"
| "truthy Null = False"
| "truthy (DateString t) = True"
| "truthy (OtherString s) = (s \<noteq> [])"

text \<open>
  \<^verbatim>\<open>new Date(x)\<close>: the time value, \<open>None\<close> for an Invalid Date (time value NaN).
  \<^verbatim>\<open>new Date(undefined)\<close> is invalid, \<^verbatim>\<open>new Date(null)\<close> is the epoch.
\<close>

fun new_Date :: "jsvalue \<Rightarrow> int option" where
  "new_Date Undefined = None"
| "new_Date Null = Some 0"
| "new_Date (DateString t) = Some t"
| "new_Date (OtherString s) = None"

text \<open>Comparison of two dates, greater-than and less-than: false as soon as one is invalid.\<close>

fun date_gt :: "int option \<Rightarrow> int option \<Rightarrow> bool" where
  "date_gt (Some a) (Some b) = (a > b)"
| "date_gt _ _ = False"

fun date_lt :: "int option \<Rightarrow> int option \<Rightarrow> bool" where
  "date_lt (Some a) (Some b) = (a < b)"
| "date_lt _ _ = False"

record content =
  closingDate :: jsvalue
  customFields :: string

record document =
  doc_id :: oid
  author :: oid
  customForm :: oid
  published :: bool
  closed :: "bool option"
  currentVersion :: oid
  commentsCount :: nat

record documentVersion =
  ver_id :: oid
  ver_document :: oid
  version :: nat
  ver_content :: "content option"
  contributions :: "oid list"

record comment =
  com_id :: oid
  com_user :: oid
  com_document :: oid
  com_version :: oid
  field :: string
  com_content :: string
  decoration :: "string option"
  resolved :: bool
  reply :: "string option"

record like =
  like_id :: oid
  like_user :: oid
  like_comment :: oid

record customFormT =
  form_id :: oid
  slug :: string
  allowComments :: "string list"

text \<open>The payloads that \<^verbatim>\<open>src/services/notifier.js\<close> posts.\<close>

datatype event =
  CommentNotification string oid
| DocumentCloses oid jsvalue

record state =
  documents :: "document list"
  versions :: "documentVersion list"
  comments :: "comment list"
  likes :: "like list"
  customForms :: "customFormT list"
  documentCreationLimit :: int
  outbox :: "event list"
  nextId :: oid

text \<open>
  The errors a route hands to \<^verbatim>\<open>next(err)\<close>. The spec calls \<open>ErrNotAuthorized\<close>
  PolicyViolation, \<open>ErrInvalidParam\<close> InvalidParam, \<open>ErrClosed\<close> Closed and
  \<open>ErrForbidden\<close> Forbidden. \<open>TypeError\<close> is JavaScript's own error for reading a
  property of \<^verbatim>\<open>null\<close> or \<^verbatim>\<open>undefined\<close>.
\<close>

datatype error =
  ErrNotFound | ErrForbidden | ErrNotAuthorized | ErrBadRequest
| ErrInvalidParam | ErrClosed | TypeError

text \<open>\<^verbatim>\<open>req.session.user\<close>: the routes read its \<^verbatim>\<open>_id\<close> only.\<close>

record sessionUser =
  u_id :: oid
  u_roles :: "string list"

section \<open>The notifier (\<^verbatim>\<open>src/services/notifier.js\<close>)\<close>

definition sendCommentNotification :: "state \<Rightarrow> string \<Rightarrow> oid \<Rightarrow> state" where
  "sendCommentNotification s notificationType commentId =
     s\<lparr>outbox := outbox s @ [CommentNotification notificationType commentId]\<rparr>"

definition setDocumentClosesNotification :: "state \<Rightarrow> oid \<Rightarrow> jsvalue \<Rightarrow> state" where
  "setDocumentClosesNotification s documentId cd =
     s\<lparr>outbox := outbox s @ [DocumentCloses documentId cd]\<rparr>"

section \<open>The stores (\<^verbatim>\<open>db-api\<close>)\<close>

text \<open>
  Modelled from the spec: \<^verbatim>\<open>db-api/community\<close>, \<^verbatim>\<open>db-api/customForm\<close>,
  \<^verbatim>\<open>db-api/document\<close>, \<^verbatim>\<open>db-api/documentVersion\<close>, \<^verbatim>\<open>db-api/comment\<close> and
  \<^verbatim>\<open>db-api/like\<close> are required by the routes but are not part of the sources at hand.
  Each function of this section follows the spec's description of the store (sections 4.1
  to 4.4 and 6) and the way the routes use its result.
\<close>

text \<open>Modelled from the spec: \<^verbatim>\<open>Community.get\<close>, read for the per-role creation limit.\<close>

definition Community_get :: "state \<Rightarrow> int" where
  "Community_get s = documentCreationLimit s"

text \<open>Modelled from the spec: \<^verbatim>\<open>CustomForm.get\<close> by id; nothing when absent.\<close>

definition CustomForm_get :: "state \<Rightarrow> oid \<Rightarrow> customFormT option" where
  "CustomForm_get s i = find (\<lambda>f. form_id f = i) (customForms s)"

text \<open>Modelled from the spec: \<^verbatim>\<open>CustomForm.get\<close> by slug; nothing when absent.\<close>

definition CustomForm_get_slug :: "state \<Rightarrow> string \<Rightarrow> customFormT option" where
  "CustomForm_get_slug s sl = find (\<lambda>f. slug f = sl) (customForms s)"

text \<open>
  Modelled from the spec: \<^verbatim>\<open>Document.get\<close>, the document with its \<^verbatim>\<open>currentVersion\<close>
  populated (nothing there when the reference does not resolve); nothing when the document
  is absent.
\<close>

definition Document_get :: "state \<Rightarrow> oid \<Rightarrow> (document \<times> documentVersion option) option" where
  "Document_get s i =
     (case find (\<lambda>d. doc_id d = i) (documents s) of
        None \<Rightarrow> None
      | Some d \<Rightarrow> Some (d, find (\<lambda>v. ver_id v = currentVersion d) (versions s)))"

text \<open>
  Modelled from the spec: \<^verbatim>\<open>Document.countAuthorDocuments\<close>, all documents of the author
  regardless of their published state.
\<close>

definition Document_countAuthorDocuments :: "state \<Rightarrow> oid \<Rightarrow> int" where
  "Document_countAuthorDocuments s a = int (length (filter (\<lambda>d. author d = a) (documents s)))"

text \<open>
  Modelled from the spec: \<^verbatim>\<open>Document.create\<close>, a document with published = false
  together with its initial version, numbered 1.
\<close>

definition Document_create :: "state \<Rightarrow> oid \<Rightarrow> customFormT \<Rightarrow> content option \<Rightarrow> document \<times> state" where
  "Document_create s a form c =
     (let d = \<lparr>doc_id = nextId s, author = a, customForm = form_id form, published = False,
               closed = None, currentVersion = Suc (nextId s), commentsCount = 0\<rparr>;
          v = \<lparr>ver_id = Suc (nextId s), ver_document = nextId s, version = 1,
               ver_content = c, contributions = []\<rparr>
      in (d, s\<lparr>documents := documents s @ [d], versions := versions s @ [v],
                nextId := Suc (Suc (nextId s))\<rparr>))"

text \<open>
  Modelled from the spec: the merge that \<^verbatim>\<open>Document.update\<close> makes of the patch built by
  the route (published, closed, currentVersion) into a document; a field that the patch
  does not carry keeps its value.
\<close>

definition merge_document :: "document \<Rightarrow> bool option \<Rightarrow> bool option \<Rightarrow> oid option \<Rightarrow> document" where
  "merge_document d p c cv =
     d\<lparr>published := (case p of None \<Rightarrow> published d | Some b \<Rightarrow> b),
       closed := (case c of None \<Rightarrow> closed d | Some b \<Rightarrow> Some b),
       currentVersion := (case cv of None \<Rightarrow> currentVersion d | Some v \<Rightarrow> v)\<rparr>"

text \<open>
  Modelled from the spec: \<^verbatim>\<open>Document.update\<close> merges the patch into the document of
  the given id and returns the document; NotFound when it is absent.
\<close>

definition Document_update ::
  "state \<Rightarrow> oid \<Rightarrow> bool option \<Rightarrow> bool option \<Rightarrow> oid option \<Rightarrow> (error + document) \<times> state" where
  "Document_update s i p c cv =
     (case find (\<lambda>d. doc_id d = i) (documents s) of
        None \<Rightarrow> (Inl ErrNotFound, s)
      | Some d \<Rightarrow>
          (Inr (merge_document d p c cv),
           s\<lparr>documents := map (\<lambda>x. if doc_id x = i then merge_document x p c cv else x)
                              (documents s)\<rparr>))"

text \<open>Modelled from the spec: \<^verbatim>\<open>Document.addComment\<close>, which increments the counter only.\<close>

definition Document_addComment :: "state \<Rightarrow> oid \<Rightarrow> state" where
  "Document_addComment s i =
     s\<lparr>documents := map (\<lambda>x. if doc_id x = i then x\<lparr>commentsCount := Suc (commentsCount x)\<rparr> else x)
                        (documents s)\<rparr>"

text \<open>
  Modelled from the spec: \<^verbatim>\<open>DocumentVersion.create\<close> stores the data as it is given
  (that the number is the prior one plus 1 is the caller's part) and returns the version.
\<close>

definition DocumentVersion_create ::
  "state \<Rightarrow> oid \<Rightarrow> nat \<Rightarrow> content option \<Rightarrow> oid list \<Rightarrow> documentVersion \<times> state" where
  "DocumentVersion_create s d n c cs =
     (let v = \<lparr>ver_id = nextId s, ver_document = d, version = n, ver_content = c,
               contributions = cs\<rparr>
      in (v, s\<lparr>versions := versions s @ [v], nextId := Suc (nextId s)\<rparr>))"

text \<open>
  Modelled from the spec: \<^verbatim>\<open>DocumentVersion.update\<close> replaces the content in place and
  changes neither the number nor the contributions.
\<close>

definition DocumentVersion_update :: "state \<Rightarrow> oid \<Rightarrow> content option \<Rightarrow> state" where
  "DocumentVersion_update s i c =
     s\<lparr>versions := map (\<lambda>v. if ver_id v = i then v\<lparr>ver_content := c\<rparr> else v) (versions s)\<rparr>"

text \<open>
  Modelled from the spec: \<^verbatim>\<open>DocumentVersion.countContributions\<close> over the versions of a
  document: the merged contributions and the distinct users behind them.
\<close>

definition DocumentVersion_countContributions :: "state \<Rightarrow> oid \<Rightarrow> nat \<times> nat" where
  "DocumentVersion_countContributions s d =
     (let cs = concat (map contributions (filter (\<lambda>v. ver_document v = d) (versions s)))
      in (length cs,
          length (remdups (map com_user (filter (\<lambda>c. com_id c \<in> set cs) (comments s))))))"

text \<open>Modelled from the spec: \<^verbatim>\<open>Comment.count\<close> of the comments of a document that carry a decoration.\<close>

definition Comment_count :: "state \<Rightarrow> oid \<Rightarrow> nat" where
  "Comment_count s d =
     length (filter (\<lambda>c. com_document c = d \<and> decoration c \<noteq> None) (comments s))"

text \<open>Modelled from the spec: \<^verbatim>\<open>Comment.getAll\<close> for a query by set of ids.\<close>

definition Comment_getAll :: "state \<Rightarrow> oid list \<Rightarrow> comment list" where
  "Comment_getAll s ids = filter (\<lambda>c. com_id c \<in> set ids) (comments s)"

text \<open>Modelled from the spec: \<^verbatim>\<open>Comment.create\<close> stores the body with resolved = false.\<close>

definition Comment_create ::
  "state \<Rightarrow> oid \<Rightarrow> oid \<Rightarrow> oid \<Rightarrow> string \<Rightarrow> string \<Rightarrow> string option \<Rightarrow> comment \<times> state" where
  "Comment_create s u d v f c dec =
     (let k = \<lparr>com_id = nextId s, com_user = u, com_document = d, com_version = v, field = f,
               com_content = c, decoration = dec, resolved = False, reply = None\<rparr>
      in (k, s\<lparr>comments := comments s @ [k], nextId := Suc (nextId s)\<rparr>))"

text \<open>
  Modelled from the spec: \<^verbatim>\<open>Comment.resolve\<close> sets resolved = true on the comment of the
  given id, whatever it was before; NotFound when the comment is absent.
\<close>

definition Comment_resolve :: "state \<Rightarrow> oid \<Rightarrow> (error + comment) \<times> state" where
  "Comment_resolve s i =
     (case find (\<lambda>c. com_id c = i) (comments s) of
        None \<Rightarrow> (Inl ErrNotFound, s)
      | Some c \<Rightarrow>
          (Inr (c\<lparr>resolved := True\<rparr>),
           s\<lparr>comments := map (\<lambda>x. if com_id x = i then x\<lparr>resolved := True\<rparr> else x) (comments s)\<rparr>))"

text \<open>
  Modelled from the spec: \<^verbatim>\<open>Comment.reply\<close> overwrites the reply of the comment of the
  given id; NotFound when the comment is absent.
\<close>

definition Comment_reply :: "state \<Rightarrow> oid \<Rightarrow> string option \<Rightarrow> (error + comment) \<times> state" where
  "Comment_reply s i r =
     (case find (\<lambda>c. com_id c = i) (comments s) of
        None \<Rightarrow> (Inl ErrNotFound, s)
      | Some c \<Rightarrow>
          (Inr (c\<lparr>reply := r\<rparr>),
           s\<lparr>comments := map (\<lambda>x. if com_id x = i then x\<lparr>reply := r\<rparr> else x) (comments s)\<rparr>))"

text \<open>
  Modelled from the spec: \<^verbatim>\<open>Comment.updateDecorations\<close> rewrites the decoration of the
  comments of a version that the payload mentions, keyed by comment id; the others stay.
\<close>

definition Comment_updateDecorations :: "state \<Rightarrow> oid \<Rightarrow> (oid \<times> string) list \<Rightarrow> state" where
  "Comment_updateDecorations s v decs =
     s\<lparr>comments := map (\<lambda>c. if com_version c = v
                              then (case map_of decs (com_id c) of
                                      None \<Rightarrow> c
                                    | Some dec \<Rightarrow> c\<lparr>decoration := Some dec\<rparr>)
                              else c) (comments s)\<rparr>"

text \<open>Modelled from the spec: \<^verbatim>\<open>Like.get\<close> returns the like of the pair, or none.\<close>

definition Like_get :: "state \<Rightarrow> oid \<Rightarrow> oid \<Rightarrow> like option" where
  "Like_get s u c = find (\<lambda>l. like_user l = u \<and> like_comment l = c) (likes s)"

text \<open>
  Modelled from the spec: \<^verbatim>\<open>Like.create\<close> returns the existing row when the pair already
  has one, and stores a new row otherwise.
\<close>

definition Like_create :: "state \<Rightarrow> oid \<Rightarrow> oid \<Rightarrow> like \<times> state" where
  "Like_create s u c =
     (case Like_get s u c of
        Some l \<Rightarrow> (l, s)
      | None \<Rightarrow>
          (let l = \<lparr>like_id = nextId s, like_user = u, like_comment = c\<rparr>
           in (l, s\<lparr>likes := likes s @ [l], nextId := Suc (nextId s)\<rparr>)))"

text \<open>Modelled from the spec: \<^verbatim>\<open>Like.remove\<close> deletes the like of the given id.\<close>

definition Like_remove :: "state \<Rightarrow> oid \<Rightarrow> state" where
  "Like_remove s i = s\<lparr>likes := filter (\<lambda>l. like_id l \<noteq> i) (likes s)\<rparr>"

section \<open>The routes (\<^verbatim>\<open>src/api/document.js\<close>)\<close>

text \<open>
  A route takes the state, the session user and the request, and returns what it answers
  (an error handed to \<^verbatim>\<open>next\<close>, or the JSON sent) with the state it leaves: an
  error raised after a write keeps the write. The routes behind
  \<^verbatim>\<open>auth.keycloak.protect\<close> always have a session user; the identity check itself and
  \<^verbatim>\<open>middlewares.checkId\<close> run before the route and are not part of it.
\<close>

record postDocumentBody =
  pb_customForm :: string
  pb_content :: "content option"

record putDocumentBody =
  bd_published :: "bool option"
  bd_closed :: "bool option"
  bd_decorations :: "(oid \<times> string) list option"
  bd_content :: "content option"
  bd_contributions :: "oid list option"

record commentBody =
  cb_field :: string
  cb_content :: string
  cb_decoration :: "string option"

record payload =
  p_document :: document
  p_currentVersion :: documentVersion
  isAuthor :: bool
  contributionsCount :: "nat option"
  contributorsCount :: "nat option"
  contextualCommentsCount :: "nat option"

text \<open>\<^verbatim>\<open>POST /documents\<close> (lines 71 to 96).\<close>

definition postDocument :: "state \<Rightarrow> sessionUser \<Rightarrow> postDocumentBody \<Rightarrow> (error + document) \<times> state" where
  "postDocument s user body =
     (let documentsCount = Document_countAuthorDocuments s (u_id user) in
      if documentsCount \<ge> Community_get s then (Inl ErrNotAuthorized, s)
      else
        (case CustomForm_get_slug s (pb_customForm body) of
           None \<Rightarrow> (Inl ErrBadRequest, s)
         | Some form \<Rightarrow>
             (let (newDocument, s1) = Document_create s (u_id user) form (pb_content body) in
              case pb_content body of
                None \<Rightarrow> (Inl TypeError, s1)
              | Some c \<Rightarrow>
                  (Inr newDocument,
                   setDocumentClosesNotification s1 (doc_id newDocument) (closingDate c)))))"

text \<open>
  \<^verbatim>\<open>GET /documents/:id\<close> (lines 146 to 182). The session user may be missing. The
  route writes nothing to the stores: \<^verbatim>\<open>document.closed = isClosed\<close> changes the object
  that is sent only.
\<close>

definition getDocument :: "state \<Rightarrow> int \<Rightarrow> sessionUser option \<Rightarrow> oid \<Rightarrow> error + payload" where
  "getDocument s now user i =
     (case Document_get s i of
        None \<Rightarrow> Inl ErrNotFound
      | Some (document, cv) \<Rightarrow>
          (let isTheAuthor = (case user of None \<Rightarrow> False | Some u \<Rightarrow> u_id u = author document) in
           case cv of
             None \<Rightarrow> Inl TypeError
           | Some v \<Rightarrow>
               (case ver_content v of
                  None \<Rightarrow> Inl TypeError
                | Some c \<Rightarrow>
                    (let isClosed = date_gt (Some now) (new_Date (closingDate c)) in
                     if \<not> published document \<and> \<not> isTheAuthor then Inl ErrForbidden
                     else
                       (let contributionsData = DocumentVersion_countContributions s i in
                        Inr \<lparr>p_document = document\<lparr>closed := Some isClosed\<rparr>,
                             p_currentVersion = v,
                             isAuthor = isTheAuthor,
                             contributionsCount = (if isClosed then Some (fst contributionsData) else None),
                             contributorsCount = (if isClosed then Some (snd contributionsData) else None),
                             contextualCommentsCount = (if isClosed then Some (Comment_count s i) else None)\<rparr>)))))"

text \<open>The test \<^verbatim>\<open>xs && xs.length > 0\<close> on an optional array of the request.\<close>

definition has_items :: "'a list option \<Rightarrow> bool" where
  "has_items xs = (case xs of None \<Rightarrow> False | Some l \<Rightarrow> length l > 0)"

text \<open>The array itself, read after that test.\<close>

definition items :: "'a list option \<Rightarrow> 'a list" where
  "items xs = (case xs of None \<Rightarrow> [] | Some l \<Rightarrow> l)"

text \<open>
  \<^verbatim>\<open>PUT /documents/:id\<close> (lines 191 to 254). Every path after the author check reads
  \<^verbatim>\<open>document.currentVersion._id\<close> or \<^verbatim>\<open>document.currentVersion.version\<close> before its
  first write, so a document whose current version does not resolve ends in a TypeError with
  nothing written.
\<close>

definition putDocument :: "state \<Rightarrow> sessionUser \<Rightarrow> oid \<Rightarrow> putDocumentBody \<Rightarrow> (error + document) \<times> state" where
  "putDocument s user i body =
     (case Document_get s i of
        None \<Rightarrow> (Inl ErrNotFound, s)
      | Some (document, cv) \<Rightarrow>
          if u_id user \<noteq> author document then (Inl ErrForbidden, s)
          else
            (case cv of
               None \<Rightarrow> (Inl TypeError, s)
             | Some cur \<Rightarrow>
                 (let s1 = (if has_items (bd_decorations body)
                            then Comment_updateDecorations s (ver_id cur) (items (bd_decorations body))
                            else s);
                      (newCurrent, s2) =
                        (if has_items (bd_contributions body)
                         then
                           (let (versionCreated, sa) =
                                  DocumentVersion_create s1 (doc_id document) (version cur + 1)
                                    (bd_content body) (items (bd_contributions body));
                                cms = Comment_getAll sa (items (bd_contributions body))
                            in (Some (ver_id versionCreated),
                                foldl (\<lambda>st c. sendCommentNotification st ''comment-contribution'' (com_id c))
                                  sa cms))
                         else (None, DocumentVersion_update s1 (ver_id cur) (bd_content body)))
                  in
                  case Document_update s2 i (bd_published body) (bd_closed body) newCurrent of
                    (Inl e, s3) \<Rightarrow> (Inl e, s3)
                  | (Inr updatedDocument, s3) \<Rightarrow>
                      (Inr updatedDocument,
                       (case bd_content body of
                          None \<Rightarrow> s3
                        | Some c \<Rightarrow>
                            if truthy (closingDate c)
                            then setDocumentClosesNotification s3 (doc_id updatedDocument) (closingDate c)
                            else s3)))))"

text \<open>
  \<^verbatim>\<open>POST /documents/:id/comments\<close> (lines 336 to 383). \<^verbatim>\<open>Array.find\<close> returns the
  element found, and the route tests it for truthiness: an empty field name is refused even
  when it is listed. The decoration is an object when present, so
  \<^verbatim>\<open>req.body.decoration || null\<close> keeps it.
\<close>

definition createComment :: "state \<Rightarrow> int \<Rightarrow> sessionUser \<Rightarrow> oid \<Rightarrow> commentBody \<Rightarrow> (error + comment) \<times> state" where
  "createComment s now user i body =
     (case Document_get s i of
        None \<Rightarrow> (Inl ErrNotFound, s)
      | Some (document, cv) \<Rightarrow>
          (case CustomForm_get s (customForm document) of
             None \<Rightarrow> (Inl TypeError, s)
           | Some form \<Rightarrow>
               if \<not> (case find (\<lambda>x. x = cb_field body) (allowComments form) of
                        None \<Rightarrow> False
                      | Some x \<Rightarrow> x \<noteq> [])
               then (Inl ErrInvalidParam, s)
               else
                 (case cv of
                    None \<Rightarrow> (Inl TypeError, s)
                  | Some cur \<Rightarrow>
                      (case ver_content cur of
                         None \<Rightarrow> (Inl TypeError, s)
                       | Some c \<Rightarrow>
                           if truthy (closingDate c) \<and> date_lt (new_Date (closingDate c)) (Some now)
                           then (Inl ErrClosed, s)
                           else
                             (let (newComment, s1) =
                                    Comment_create s (u_id user) (doc_id document) (ver_id cur)
                                      (cb_field body) (cb_content body) (cb_decoration body)
                              in (Inr newComment, Document_addComment s1 i))))))"

text \<open>
  \<^verbatim>\<open>POST /documents/:id/comments/:idComment/resolve\<close> (lines 396 to 414). The document
  is not tested for null before \<^verbatim>\<open>document.author\<close> is read.
\<close>

definition resolveComment :: "state \<Rightarrow> sessionUser \<Rightarrow> oid \<Rightarrow> oid \<Rightarrow> (error + comment) \<times> state" where
  "resolveComment s user i idComment =
     (case Document_get s i of
        None \<Rightarrow> (Inl TypeError, s)
      | Some (document, cv) \<Rightarrow>
          if u_id user \<noteq> author document then (Inl ErrForbidden, s)
          else
            (case Comment_resolve s idComment of
               (Inl e, s1) \<Rightarrow> (Inl e, s1)
             | (Inr commentResolved, s1) \<Rightarrow>
                 (Inr commentResolved, sendCommentNotification s1 ''comment-resolved'' idComment)))"

text \<open>
  \<^verbatim>\<open>POST /documents/:id/comments/:idComment/like\<close> (lines 425 to 457). The answer is the
  created like, or \<^verbatim>\<open>null\<close> after a removal. The document is read only when a like is
  to be created, and is not tested for null.
\<close>

definition likeComment :: "state \<Rightarrow> sessionUser \<Rightarrow> oid \<Rightarrow> oid \<Rightarrow> (error + like option) \<times> state" where
  "likeComment s user i idComment =
     (case Like_get s (u_id user) idComment of
        None \<Rightarrow>
          (case Document_get s i of
             None \<Rightarrow> (Inl TypeError, s)
           | Some (document, cv) \<Rightarrow>
               (let isTheAuthor = (u_id user = author document);
                    (createdLike, s1) = Like_create s (u_id user) idComment
                in (Inr (Some createdLike),
                    if isTheAuthor then sendCommentNotification s1 ''comment-liked'' idComment else s1)))
      | Some l \<Rightarrow> (Inr None, Like_remove s (like_id l)))"

text \<open>\<^verbatim>\<open>POST /documents/:id/comments/:idComment/reply\<close> (lines 460 to 477).\<close>

definition replyComment :: "state \<Rightarrow> sessionUser \<Rightarrow> oid \<Rightarrow> oid \<Rightarrow> string option \<Rightarrow> (error + comment) \<times> state" where
  "replyComment s user i idComment r =
     (case Document_get s i of
        None \<Rightarrow> (Inl TypeError, s)
      | Some (document, cv) \<Rightarrow>
          if u_id user \<noteq> author document then (Inl ErrForbidden, s)
          else Comment_reply s idComment r)"

section \<open>Reachable states\<close>

text \<open>
  The stores start empty, with the custom forms and the creation limit that the community
  has (both are administered elsewhere and fixed here). Every state the service can be in
  is reached by a sequence of calls of the writing routes, by any users, with any requests.
\<close>

definition init :: "customFormT list \<Rightarrow> int \<Rightarrow> state" where
  "init forms limit =
     \<lparr>documents = [], versions = [], comments = [], likes = [], customForms = forms,
      documentCreationLimit = limit, outbox = [], nextId = 0\<rparr>"

inductive reachable :: "state \<Rightarrow> bool" where
  r_init: "reachable (init forms limit)"
| r_postDocument: "reachable s \<Longrightarrow> reachable (snd (postDocument s user pbody))"
| r_putDocument: "reachable s \<Longrightarrow> reachable (snd (putDocument s user i body))"
| r_createComment: "reachable s \<Longrightarrow> reachable (snd (createComment s now user i cbody))"
| r_resolveComment: "reachable s \<Longrightarrow> reachable (snd (resolveComment s user i idComment))"
| r_likeComment: "reachable s \<Longrightarrow> reachable (snd (likeComment s user i idComment))"
| r_replyComment: "reachable s \<Longrightarrow> reachable (snd (replyComment s user i idComment r))"

text \<open>
  What the version chain of a state looks like: identifiers are below the counter and
  unique, the current version of a document is one of its versions and carries its highest
  number, and two versions of one document with the same number are the same version.
\<close>

definition versions_inv :: "state \<Rightarrow> bool" where
  "versions_inv s \<longleftrightarrow>
     (\<forall>d \<in> set (documents s). doc_id d < nextId s) \<and>
     (\<forall>v \<in> set (versions s). ver_id v < nextId s \<and> ver_document v < nextId s) \<and>
     distinct (map doc_id (documents s)) \<and>
     distinct (map ver_id (versions s)) \<and>
     (\<forall>d \<in> set (documents s). \<exists>v \<in> set (versions s).
        ver_id v = currentVersion d \<and> ver_document v = doc_id d \<and>
        (\<forall>w \<in> set (versions s). ver_document w = doc_id d \<longrightarrow> version w \<le> version v)) \<and>
     (\<forall>v \<in> set (versions s). \<forall>w \<in> set (versions s).
        ver_document v = ver_document w \<and> version v = version w \<longrightarrow> ver_id v = ver_id w)"

text \<open>The likes of a state: identifiers below the counter and unique, one like per pair.\<close>

definition likes_inv :: "state \<Rightarrow> bool" where
  "likes_inv s \<longleftrightarrow>
     (\<forall>l \<in> set (likes s). like_id l < nextId s) \<and>
     distinct (map like_id (likes s)) \<and>
     distinct (map (\<lambda>l. (like_user l, like_comment l)) (likes s))"

text \<open>The liked state of a pair, as \<^verbatim>\<open>Like.get\<close> shows it.\<close>

definition liked :: "state \<Rightarrow> oid \<Rightarrow> oid \<Rightarrow> bool" where
  "liked s u c = (Like_get s u c \<noteq> None)"

section \<open>A small history of the service\<close>

text \<open>
  One form whose only commentable field is the brief, a creation limit of 2, and three
  users. Alice creates a document without closing date (document 0, version 1 with id 1),
  Bob comments on its brief (comment 2), Carol creates a document that closes at time 100
  (document 3, version 1 with id 4), Alice comments on her own document (comment 5), and
  Alice merges Bob's comment into a second version of her document (id 6), publishing it
  with a closing date of 500 and a caller-supplied closed = true. At last Alice creates a
  second document (document 7, version 1 with id 8) and so reaches the limit.
\<close>

definition alice :: sessionUser where
  "alice = \<lparr>u_id = 1, u_roles = [''accountable'']\<rparr>"

definition bob :: sessionUser where
  "bob = \<lparr>u_id = 2, u_roles = []\<rparr>"

definition carol :: sessionUser where
  "carol = \<lparr>u_id = 3, u_roles = [''accountable'']\<rparr>"

definition st0 :: state where
  "st0 = init [\<lparr>form_id = 7, slug = ''project'', allowComments = [''brief'']\<rparr>] 2"

definition st1 :: state where
  "st1 = snd (postDocument st0 alice
     \<lparr>pb_customForm = ''project'',
      pb_content = Some \<lparr>closingDate = Undefined, customFields = ''draft''\<rparr>\<rparr>)"

definition st2 :: state where
  "st2 = snd (createComment st1 50 bob 0
     \<lparr>cb_field = ''brief'', cb_content = ''typo'', cb_decoration = None\<rparr>)"

definition st3 :: state where
  "st3 = snd (postDocument st2 carol
     \<lparr>pb_customForm = ''project'',
      pb_content = Some \<lparr>closingDate = DateString 100, customFields = ''law''\<rparr>\<rparr>)"

definition st4 :: state where
  "st4 = snd (createComment st3 50 alice 0
     \<lparr>cb_field = ''brief'', cb_content = ''note'', cb_decoration = None\<rparr>)"

definition merge_body :: putDocumentBody where
  "merge_body =
     \<lparr>bd_published = Some True, bd_closed = Some True, bd_decorations = None,
      bd_content = Some \<lparr>closingDate = DateString 500, customFields = ''final''\<rparr>,
      bd_contributions = Some [2]\<rparr>"

definition st5 :: state where
  "st5 = snd (putDocument st4 alice 0 merge_body)"

definition second_body :: postDocumentBody where
  "second_body =
     \<lparr>pb_customForm = ''project'',
      pb_content = Some \<lparr>closingDate = Undefined, customFields = ''second''\<rparr>\<rparr>"

definition st6 :: state where
  "st6 = snd (postDocument st5 alice second_body)"

text \<open>A later edit of document 0 that merges no comment.\<close>

definition amend_body :: putDocumentBody where
  "amend_body =
     \<lparr>bd_published = None, bd_closed = None, bd_decorations = None,
      bd_content = Some \<lparr>closingDate = DateString 500, customFields = ''final, fixed''\<rparr>,
      bd_contributions = Some []\<rparr>"

section \<open>The history, evaluated\<close>

lemmas store_defs =
  Community_get_def CustomForm_get_def CustomForm_get_slug_def Document_get_def
  Document_countAuthorDocuments_def Document_create_def merge_document_def Document_update_def
  Document_addComment_def DocumentVersion_create_def DocumentVersion_update_def
  DocumentVersion_countContributions_def Comment_count_def Comment_getAll_def Comment_create_def
  Comment_resolve_def Comment_reply_def Comment_updateDecorations_def Like_get_def Like_create_def
  Like_remove_def sendCommentNotification_def setDocumentClosesNotification_def has_items_def
  items_def

lemmas user_defs = alice_def bob_def carol_def

lemma st1_eq: "st1 =
  \<lparr>documents = [\<lparr>doc_id = 0, author = 1, customForm = 7, published = False,
        closed = None, currentVersion = 1, commentsCount = 0\<rparr>],
   versions = [\<lparr>ver_id = 1, ver_document = 0, version = 1,
          ver_content = Some \<lparr>closingDate = Undefined, customFields = ''draft''\<rparr>,
          contributions = []\<rparr>],
   comments = [], likes = [],
   customForms = [\<lparr>form_id = 7, slug = ''project'', allowComments = [''brief'']\<rparr>],
   documentCreationLimit = 2, outbox = [DocumentCloses 0 Undefined], nextId = 2\<rparr>"
  by (simp add: st1_def st0_def init_def user_defs postDocument_def store_defs Let_def)

lemma st2_eq: "st2 =
  \<lparr>documents = [\<lparr>doc_id = 0, author = 1, customForm = 7, published = False,
        closed = None, currentVersion = 1, commentsCount = 1\<rparr>],
   versions = [\<lparr>ver_id = 1, ver_document = 0, version = 1,
          ver_content = Some \<lparr>closingDate = Undefined, customFields = ''draft''\<rparr>,
          contributions = []\<rparr>],
   comments = [\<lparr>com_id = 2, com_user = 2, com_document = 0, com_version = 1,
          field = ''brief'', com_content = ''typo'', decoration = None,
          resolved = False, reply = None\<rparr>],
   likes = [],
   customForms = [\<lparr>form_id = 7, slug = ''project'', allowComments = [''brief'']\<rparr>],
   documentCreationLimit = 2, outbox = [DocumentCloses 0 Undefined], nextId = 3\<rparr>"
  by (simp add: st2_def st1_eq user_defs createComment_def store_defs Let_def)

lemma st3_eq: "st3 =
  \<lparr>documents = [\<lparr>doc_id = 0, author = 1, customForm = 7, published = False,
        closed = None, currentVersion = 1, commentsCount = 1\<rparr>,
      \<lparr>doc_id = 3, author = 3, customForm = 7, published = False,
        closed = None, currentVersion = 4, commentsCount = 0\<rparr>],
   versions = [\<lparr>ver_id = 1, ver_document = 0, version = 1,
          ver_content = Some \<lparr>closingDate = Undefined, customFields = ''draft''\<rparr>,
          contributions = []\<rparr>,
       \<lparr>ver_id = 4, ver_document = 3, version = 1,
          ver_content = Some \<lparr>closingDate = DateString 100, customFields = ''law''\<rparr>,
          contributions = []\<rparr>],
   comments = [\<lparr>com_id = 2, com_user = 2, com_document = 0, com_version = 1,
          field = ''brief'', com_content = ''typo'', decoration = None,
          resolved = False, reply = None\<rparr>],
   likes = [],
   customForms = [\<lparr>form_id = 7, slug = ''project'', allowComments = [''brief'']\<rparr>],
   documentCreationLimit = 2,
   outbox = [DocumentCloses 0 Undefined, DocumentCloses 3 (DateString 100)], nextId = 5\<rparr>"
  by (simp add: st3_def st2_eq user_defs postDocument_def store_defs Let_def)

lemma st4_eq: "st4 =
  \<lparr>documents = [\<lparr>doc_id = 0, author = 1, customForm = 7, published = False,
        closed = None, currentVersion = 1, commentsCount = 2\<rparr>,
      \<lparr>doc_id = 3, author = 3, customForm = 7, published = False,
        closed = None, currentVersion = 4, commentsCount = 0\<rparr>],
   versions = [\<lparr>ver_id = 1, ver_document = 0, version = 1,
          ver_content = Some \<lparr>closingDate = Undefined, customFields = ''draft''\<rparr>,
          contributions = []\<rparr>,
       \<lparr>ver_id = 4, ver_document = 3, version = 1,
          ver_content = Some \<lparr>closingDate = DateString 100, customFields = ''law''\<rparr>,
          contributions = []\<rparr>],
   comments = [\<lparr>com_id = 2, com_user = 2, com_document = 0, com_version = 1,
          field = ''brief'', com_content = ''typo'', decoration = None,
          resolved = False, reply = None\<rparr>,
       \<lparr>com_id = 5, com_user = 1, com_document = 0, com_version = 1,
          field = ''brief'', com_content = ''note'', decoration = None,
          resolved = False, reply = None\<rparr>],
   likes = [],
   customForms = [\<lparr>form_id = 7, slug = ''project'', allowComments = [''brief'']\<rparr>],
   documentCreationLimit = 2,
   outbox = [DocumentCloses 0 Undefined, DocumentCloses 3 (DateString 100)], nextId = 6\<rparr>"
  by (simp add: st4_def st3_eq user_defs createComment_def store_defs Let_def)

lemma st5_eq: "st5 =
  \<lparr>documents = [\<lparr>doc_id = 0, author = 1, customForm = 7, published = True,
        closed = Some True, currentVersion = 6, commentsCount = 2\<rparr>,
      \<lparr>doc_id = 3, author = 3, customForm = 7, published = False,
        closed = None, currentVersion = 4, commentsCount = 0\<rparr>],
   versions = [\<lparr>ver_id = 1, ver_document = 0, version = 1,
          ver_content = Some \<lparr>closingDate = Undefined, customFields = ''draft''\<rparr>,
          contributions = []\<rparr>,
       \<lparr>ver_id = 4, ver_document = 3, version = 1,
          ver_content = Some \<lparr>closingDate = DateString 100, customFields = ''law''\<rparr>,
          contributions = []\<rparr>,
       \<lparr>ver_id = 6, ver_document = 0, version = 2,
          ver_content = Some \<lparr>closingDate = DateString 500, customFields = ''final''\<rparr>,
          contributions = [2]\<rparr>],
   comments = [\<lparr>com_id = 2, com_user = 2, com_document = 0, com_version = 1,
          field = ''brief'', com_content = ''typo'', decoration = None,
          resolved = False, reply = None\<rparr>,
       \<lparr>com_id = 5, com_user = 1, com_document = 0, com_version = 1,
          field = ''brief'', com_content = ''note'', decoration = None,
          resolved = False, reply = None\<rparr>],
   likes = [],
   customForms = [\<lparr>form_id = 7, slug = ''project'', allowComments = [''brief'']\<rparr>],
   documentCreationLimit = 2,
   outbox = [DocumentCloses 0 Undefined, DocumentCloses 3 (DateString 100),
       CommentNotification ''comment-contribution'' 2, DocumentCloses 0 (DateString 500)],
   nextId = 7\<rparr>"
  by (simp add: st5_def st4_eq user_defs merge_body_def putDocument_def store_defs Let_def)

lemma st6_eq: "st6 =
  \<lparr>documents = [\<lparr>doc_id = 0, author = 1, customForm = 7, published = True,
        closed = Some True, currentVersion = 6, commentsCount = 2\<rparr>,
      \<lparr>doc_id = 3, author = 3, customForm = 7, published = False,
        closed = None, currentVersion = 4, commentsCount = 0\<rparr>,
      \<lparr>doc_id = 7, author = 1, customForm = 7, published = False,
        closed = None, currentVersion = 8, commentsCount = 0\<rparr>],
   versions = [\<lparr>ver_id = 1, ver_document = 0, version = 1,
          ver_content = Some \<lparr>closingDate = Undefined, customFields = ''draft''\<rparr>,
          contributions = []\<rparr>,
       \<lparr>ver_id = 4, ver_document = 3, version = 1,
          ver_content = Some \<lparr>closingDate = DateString 100, customFields = ''law''\<rparr>,
          contributions = []\<rparr>,
       \<lparr>ver_id = 6, ver_document = 0, version = 2,
          ver_content = Some \<lparr>closingDate = DateString 500, customFields = ''final''\<rparr>,
          contributions = [2]\<rparr>,
       \<lparr>ver_id = 8, ver_document = 7, version = 1,
          ver_content = Some \<lparr>closingDate = Undefined, customFields = ''second''\<rparr>,
          contributions = []\<rparr>],
   comments = [\<lparr>com_id = 2, com_user = 2, com_document = 0, com_version = 1,
          field = ''brief'', com_content = ''typo'', decoration = None,
          resolved = False, reply = None\<rparr>,
       \<lparr>com_id = 5, com_user = 1, com_document = 0, com_version = 1,
          field = ''brief'', com_content = ''note'', decoration = None,
          resolved = False, reply = None\<rparr>],
   likes = [],
   customForms = [\<lparr>form_id = 7, slug = ''project'', allowComments = [''brief'']\<rparr>],
   documentCreationLimit = 2,
   outbox = [DocumentCloses 0 Undefined, DocumentCloses 3 (DateString 100),
       CommentNotification ''comment-contribution'' 2, DocumentCloses 0 (DateString 500),
       DocumentCloses 7 Undefined],
   nextId = 9\<rparr>"
  by (simp add: st6_def st5_eq user_defs second_body_def postDocument_def store_defs Let_def)

lemma reachable_st4: "reachable st4"
  unfolding st4_def st3_def st2_def st1_def st0_def
  by (intro r_createComment r_postDocument r_init)

lemma reachable_st5: "reachable st5"
  unfolding st5_def by (intro r_putDocument reachable_st4)

lemma Document_get_st4_0:
  "Document_get st4 0 =
     Some (\<lparr>doc_id = 0, author = 1, customForm = 7, published = False,
             closed = None, currentVersion = 1, commentsCount = 2\<rparr>,
           Some \<lparr>ver_id = 1, ver_document = 0, version = 1,
             ver_content = Some \<lparr>closingDate = Undefined, customFields = ''draft''\<rparr>,
             contributions = []\<rparr>)"
  by (simp add: st4_eq Document_get_def)

lemma Document_get_st5_0:
  "Document_get st5 0 =
     Some (\<lparr>doc_id = 0, author = 1, customForm = 7, published = True,
             closed = Some True, currentVersion = 6, commentsCount = 2\<rparr>,
           Some \<lparr>ver_id = 6, ver_document = 0, version = 2,
             ver_content = Some \<lparr>closingDate = DateString 500, customFields = ''final''\<rparr>,
             contributions = [2]\<rparr>)"
  by (simp add: st5_eq Document_get_def)

lemma Document_get_st5_3:
  "Document_get st5 3 =
     Some (\<lparr>doc_id = 3, author = 3, customForm = 7, published = False,
             closed = None, currentVersion = 4, commentsCount = 0\<rparr>,
           Some \<lparr>ver_id = 4, ver_document = 3, version = 1,
             ver_content = Some \<lparr>closingDate = DateString 100, customFields = ''law''\<rparr>,
             contributions = []\<rparr>)"
  by (simp add: st5_eq Document_get_def)

lemma comment_2_st5:
  "find (\<lambda>k. com_id k = 2) (comments st5) =
     Some \<lparr>com_id = 2, com_user = 2, com_document = 0, com_version = 1,
          field = ''brief'', com_content = ''typo'', decoration = None,
          resolved = False, reply = None\<rparr>"
  by (simp add: st5_eq)

section \<open>Lists and lookups\<close>

lemma find_SomeD: "find P xs = Some x \<Longrightarrow> x \<in> set xs \<and> P x"
  by (auto simp: find_Some_iff)

lemma find_map_same_id:
  assumes "\<And>x. key (g x) = key x"
  shows "find (\<lambda>c. key c = i) (map (\<lambda>x. if key x = i then g x else x) xs) =
         map_option g (find (\<lambda>c. key c = i) xs)"
  using assms by (induction xs) auto

lemma find_filter_keep:
  "(\<forall>x \<in> set xs. P x \<longrightarrow> Q x) \<Longrightarrow> find P (filter Q xs) = find P xs"
  by (induction xs) auto

lemma find_append_last:
  "find P (xs @ [l]) = (case find P xs of None \<Rightarrow> (if P l then Some l else None) | Some x \<Rightarrow> Some x)"
  by (induction xs) auto

lemma map_upd_ball:
  assumes key: "\<And>x. key (g x) = key x" and P: "\<And>x. P (g x)"
  shows "\<forall>k \<in> set (map (\<lambda>x. if key x = i then g x else x) xs). key k = i \<longrightarrow> P k"
proof (intro ballI impI)
  fix k
  assume kin: "k \<in> set (map (\<lambda>x. if key x = i then g x else x) xs)" and ki: "key k = i"
  from kin obtain x where k: "k = (if key x = i then g x else x)"
    unfolding set_map by blast
  show "P k"
  proof (cases "key x = i")
    case True
    with k have "k = g x" by simp
    then show ?thesis by (simp add: P)
  next
    case False
    with k have "k = x" by simp
    with ki False show ?thesis by simp
  qed
qed

lemma foldl_send:
  "foldl (\<lambda>st c. sendCommentNotification st t (com_id c)) s cs =
     s\<lparr>outbox := outbox s @ map (\<lambda>c. CommentNotification t (com_id c)) cs\<rparr>"
  by (induction cs arbitrary: s) (simp_all add: sendCommentNotification_def)

lemma Document_get_frame:
  "documents s' = documents s \<Longrightarrow> versions s' = versions s \<Longrightarrow> Document_get s' i = Document_get s i"
  by (simp add: Document_get_def cong: option.case_cong)

lemma Document_get_doc_id: "Document_get s i = Some (d, cv) \<Longrightarrow> doc_id d = i"
  by (auto simp: Document_get_def split: option.splits dest: find_Some_iff [THEN iffD1])

lemma Document_get_SomeD:
  assumes "Document_get s i = Some (d, cv)"
  shows "find (\<lambda>x. doc_id x = i) (documents s) = Some d"
    and "find (\<lambda>v. ver_id v = currentVersion d) (versions s) = cv"
  using assms by (auto simp: Document_get_def split: option.splits)

lemma merge_document_sel:
  "doc_id (merge_document x p c cv) = doc_id x"
  "author (merge_document x p c cv) = author x"
  "currentVersion (merge_document x p c None) = currentVersion x"
  "currentVersion (merge_document x p c (Some k)) = k"
  by (simp_all add: merge_document_def)

section \<open>The likes of reachable states\<close>

lemma postDocument_likes:
  "likes (snd (postDocument s user body)) = likes s \<and>
   nextId s \<le> nextId (snd (postDocument s user body))"
  by (simp add: postDocument_def Document_create_def setDocumentClosesNotification_def Let_def
      split: option.splits)

lemma createComment_likes:
  "likes (snd (createComment s now user i body)) = likes s \<and>
   nextId s \<le> nextId (snd (createComment s now user i body))"
  by (simp add: createComment_def Comment_create_def Document_addComment_def Let_def
      split: option.splits)

lemma resolveComment_likes:
  "likes (snd (resolveComment s user i idComment)) = likes s \<and>
   nextId s \<le> nextId (snd (resolveComment s user i idComment))"
  by (simp add: resolveComment_def Comment_resolve_def sendCommentNotification_def
      split: option.splits)

lemma replyComment_likes:
  "likes (snd (replyComment s user i idComment r)) = likes s \<and>
   nextId s \<le> nextId (snd (replyComment s user i idComment r))"
  by (simp add: replyComment_def Comment_reply_def split: option.splits)

lemma putDocument_likes:
  "likes (snd (putDocument s user i body)) = likes s \<and>
   nextId s \<le> nextId (snd (putDocument s user i body))"
  by (simp add: putDocument_def Comment_updateDecorations_def DocumentVersion_create_def
      DocumentVersion_update_def Document_update_def setDocumentClosesNotification_def
      foldl_send Let_def split: option.splits)

lemma likes_inv_frame:
  "likes_inv s \<Longrightarrow> likes s' = likes s \<Longrightarrow> nextId s \<le> nextId s' \<Longrightarrow> likes_inv s'"
  by (fastforce simp: likes_inv_def)

lemma likeComment_no_document:
  "Like_get s (u_id user) c = None \<Longrightarrow> Document_get s i = None \<Longrightarrow>
     likeComment s user i c = (Inl TypeError, s)"
  by (simp add: likeComment_def)

lemma likeComment_create:
  assumes "Like_get s (u_id user) c = None" and "Document_get s i = Some (d, cv)"
  shows "fst (likeComment s user i c) =
           Inr (Some \<lparr>like_id = nextId s, like_user = u_id user, like_comment = c\<rparr>) \<and>
         likes (snd (likeComment s user i c)) =
           likes s @ [\<lparr>like_id = nextId s, like_user = u_id user, like_comment = c\<rparr>] \<and>
         nextId (snd (likeComment s user i c)) = Suc (nextId s) \<and>
         documents (snd (likeComment s user i c)) = documents s \<and>
         versions (snd (likeComment s user i c)) = versions s"
  using assms
  by (simp add: likeComment_def Like_create_def sendCommentNotification_def Let_def)

lemma likeComment_remove:
  "Like_get s (u_id user) c = Some l \<Longrightarrow>
     likeComment s user i c =
       (Inr None, s\<lparr>likes := filter (\<lambda>x. like_id x \<noteq> like_id l) (likes s)\<rparr>)"
  by (simp add: likeComment_def Like_remove_def)

lemma likes_inv_append:
  assumes "likes_inv s" and "Like_get s u c = None"
    and "likes s' = likes s @ [\<lparr>like_id = nextId s, like_user = u, like_comment = c\<rparr>]"
    and "nextId s' = Suc (nextId s)"
  shows "likes_inv s'"
proof -
  from assms(2) have "(u, c) \<notin> (\<lambda>l. (like_user l, like_comment l)) ` set (likes s)"
    by (auto simp: Like_get_def find_None_iff)
  moreover from assms(1) have "nextId s \<notin> like_id ` set (likes s)"
    by (auto simp: likes_inv_def)
  ultimately show ?thesis
    using assms(1,3,4) by (auto simp: likes_inv_def less_Suc_eq)
qed

lemma likes_inv_filter:
  assumes "likes_inv s" and "likes s' = filter Q (likes s)" and "nextId s \<le> nextId s'"
  shows "likes_inv s'"
  using assms by (auto simp: likes_inv_def distinct_map_filter)

lemma likeComment_likes_inv:
  assumes "likes_inv s"
  shows "likes_inv (snd (likeComment s user i c))"
proof (cases "Like_get s (u_id user) c")
  case None
  show ?thesis
  proof (cases "Document_get s i")
    case N: None
    with None assms show ?thesis by (simp add: likeComment_no_document)
  next
    case (Some p)
    obtain d cv where "p = (d, cv)" by (cases p)
    with Some have "Document_get s i = Some (d, cv)" by simp
    from likeComment_create [OF None this] show ?thesis
      by (intro likes_inv_append [OF assms None]) simp_all
  qed
next
  case (Some l)
  show ?thesis
    by (rule likes_inv_filter [OF assms, where Q = "\<lambda>x. like_id x \<noteq> like_id l"])
       (simp_all add: likeComment_remove [OF Some])
qed

lemma likes_inv_init: "likes_inv (init forms limit)"
  by (simp add: likes_inv_def init_def)

lemma reachable_likes_inv: "reachable s \<Longrightarrow> likes_inv s"
proof (induction rule: reachable.induct)
  case (r_init forms limit)
  show ?case by (rule likes_inv_init)
next
  case (r_postDocument s user pbody)
  then show ?case using postDocument_likes [of s user pbody] by (blast intro: likes_inv_frame)
next
  case (r_putDocument s user i body)
  then show ?case using putDocument_likes [of s user i body] by (blast intro: likes_inv_frame)
next
  case (r_createComment s now user i cbody)
  then show ?case using createComment_likes [of s now user i cbody] by (blast intro: likes_inv_frame)
next
  case (r_resolveComment s user i idComment)
  then show ?case using resolveComment_likes [of s user i idComment] by (blast intro: likes_inv_frame)
next
  case (r_likeComment s user i idComment)
  from r_likeComment.IH show ?case by (rule likeComment_likes_inv)
next
  case (r_replyComment s user i idComment r)
  then show ?case using replyComment_likes [of s user i idComment r] by (blast intro: likes_inv_frame)
qed

lemma likes_inv_same_pair:
  assumes "likes_inv s" and "x \<in> set (likes s)" and "y \<in> set (likes s)"
    and "like_user x = like_user y" and "like_comment x = like_comment y"
  shows "x = y"
proof -
  from assms(1) have "inj_on (\<lambda>l. (like_user l, like_comment l)) (set (likes s))"
    by (simp add: likes_inv_def distinct_map)
  with assms(2-5) show ?thesis by (auto dest: inj_onD)
qed

lemma likes_inv_same_id:
  assumes "likes_inv s" and "x \<in> set (likes s)" and "y \<in> set (likes s)"
    and "like_id x = like_id y"
  shows "x = y"
proof -
  from assms(1) have "inj_on like_id (set (likes s))"
    by (simp add: likes_inv_def distinct_map)
  with assms(2-4) show ?thesis by (auto dest: inj_onD)
qed

lemma Like_get_SomeD:
  "Like_get s u c = Some l \<Longrightarrow> l \<in> set (likes s) \<and> like_user l = u \<and> like_comment l = c"
  by (auto simp: Like_get_def find_Some_iff)

lemma toggle_on:
  assumes "Like_get s (u_id user) c = None" and "Document_get s i = Some (d, cv)"
  shows "\<exists>l s'. likeComment s user i c = (Inr (Some l), s') \<and>
           Like_get s' (u_id user) c = Some l \<and> like_user l = u_id user \<and>
           like_comment l = c \<and> likes s' = likes s @ [l]"
proof -
  let ?l = "\<lparr>like_id = nextId s, like_user = u_id user, like_comment = c\<rparr>"
  let ?r = "likeComment s user i c"
  note c = likeComment_create [OF assms]
  have "Like_get (snd ?r) (u_id user) c = Some ?l"
    using assms(1) c by (simp add: Like_get_def find_append_last)
  moreover have "?r = (Inr (Some ?l), snd ?r)"
    using c by (simp add: prod_eq_iff)
  ultimately show ?thesis using c by (intro exI [of _ ?l] exI [of _ "snd ?r"]) simp
qed

lemma toggle_off:
  assumes "likes_inv s" and "Like_get s (u_id user) c = Some l"
  shows "\<exists>s'. likeComment s user i c = (Inr None, s') \<and>
           Like_get s' (u_id user) c = None \<and> set (likes s') = set (likes s) - {l}"
proof -
  let ?s' = "s\<lparr>likes := filter (\<lambda>x. like_id x \<noteq> like_id l) (likes s)\<rparr>"
  note l = Like_get_SomeD [OF assms(2)]
  have "Like_get ?s' (u_id user) c = None"
    using likes_inv_same_pair [OF assms(1) _ l [THEN conjunct1]] l
    by (auto simp: Like_get_def find_None_iff)
  moreover have "set (likes ?s') = set (likes s) - {l}"
    using likes_inv_same_id [OF assms(1) _ l [THEN conjunct1]] by auto
  ultimately show ?thesis
    using likeComment_remove [OF assms(2), of i] by simp
qed

lemma toggle_other_pairs:
  assumes "likes_inv s" and "(u', c') \<noteq> (u_id user, c)"
  shows "Like_get (snd (likeComment s user i c)) u' c' = Like_get s u' c'"
proof (cases "Like_get s (u_id user) c")
  case None
  show ?thesis
  proof (cases "Document_get s i")
    case N: None
    with None show ?thesis by (simp add: likeComment_no_document)
  next
    case (Some p)
    obtain d cv where "p = (d, cv)" by (cases p)
    with Some have "Document_get s i = Some (d, cv)" by simp
    from likeComment_create [OF None this] assms(2) show ?thesis
      by (auto simp: Like_get_def find_append_last split: option.splits)
  qed
next
  case (Some l)
  note l = Like_get_SomeD [OF Some]
  have "\<forall>x \<in> set (likes s). like_user x = u' \<and> like_comment x = c' \<longrightarrow> like_id x \<noteq> like_id l"
    using likes_inv_same_id [OF assms(1) _ l [THEN conjunct1]] l assms(2) by auto
  then show ?thesis
    by (simp add: likeComment_remove [OF Some] Like_get_def find_filter_keep)
qed

lemma toggle_twice:
  assumes "likes_inv s" and "Document_get s i = Some (d, cv)"
  shows "liked (snd (likeComment (snd (likeComment s user i c)) user i c)) (u_id user) c =
         liked s (u_id user) c"
proof (cases "Like_get s (u_id user) c")
  case None
  from toggle_on [OF None assms(2)] obtain l s1 where
    1: "likeComment s user i c = (Inr (Some l), s1)" and 2: "Like_get s1 (u_id user) c = Some l"
    by blast
  from 1 have s1: "snd (likeComment s user i c) = s1" by simp
  have "likes_inv s1" using likeComment_likes_inv [OF assms(1), of user i c] by (simp only: s1)
  from toggle_off [OF this 2, of i] obtain s2 where
    3: "likeComment s1 user i c = (Inr None, s2)" and 4: "Like_get s2 (u_id user) c = None"
    by blast
  from 3 have s2: "snd (likeComment s1 user i c) = s2" by simp
  show ?thesis unfolding liked_def s1 s2 by (simp only: None 4)
next
  case (Some l)
  from toggle_off [OF assms(1) Some, of i] obtain s1 where
    1: "likeComment s user i c = (Inr None, s1)" and 2: "Like_get s1 (u_id user) c = None"
    by blast
  from 1 have s1: "snd (likeComment s user i c) = s1" by simp
  have "s1 = s\<lparr>likes := filter (\<lambda>x. like_id x \<noteq> like_id l) (likes s)\<rparr>"
    using likeComment_remove [OF Some, of i] 1 by simp
  then have "Document_get s1 i = Document_get s i"
    by (intro Document_get_frame) simp_all
  with assms(2) have "Document_get s1 i = Some (d, cv)" by simp
  from toggle_on [OF 2 this] obtain l' s2 where
    3: "likeComment s1 user i c = (Inr (Some l'), s2)" and 4: "Like_get s2 (u_id user) c = Some l'"
    by blast
  from 3 have s2: "snd (likeComment s1 user i c) = s2" by simp
  show ?thesis unfolding liked_def s1 s2 by (simp add: Some 4)
qed

section \<open>The version chains of reachable states\<close>

lemma versions_inv_init: "versions_inv (init forms limit)"
  by (simp add: versions_inv_def init_def)

lemma versions_invD:
  assumes "versions_inv s"
  shows "d \<in> set (documents s) \<Longrightarrow> doc_id d < nextId s"
    and "v \<in> set (versions s) \<Longrightarrow> ver_id v < nextId s"
    and "v \<in> set (versions s) \<Longrightarrow> ver_document v < nextId s"
    and "distinct (map doc_id (documents s))"
    and "distinct (map ver_id (versions s))"
    and "d \<in> set (documents s) \<Longrightarrow> \<exists>v \<in> set (versions s).
        ver_id v = currentVersion d \<and> ver_document v = doc_id d \<and>
        (\<forall>w \<in> set (versions s). ver_document w = doc_id d \<longrightarrow> version w \<le> version v)"
    and "v \<in> set (versions s) \<Longrightarrow> w \<in> set (versions s) \<Longrightarrow>
        ver_document v = ver_document w \<Longrightarrow> version v = version w \<Longrightarrow> ver_id v = ver_id w"
  using assms unfolding versions_inv_def by blast+

lemma versions_invI:
  assumes "\<And>d. d \<in> set (documents s) \<Longrightarrow> doc_id d < nextId s"
    and "\<And>v. v \<in> set (versions s) \<Longrightarrow> ver_id v < nextId s"
    and "\<And>v. v \<in> set (versions s) \<Longrightarrow> ver_document v < nextId s"
    and "distinct (map doc_id (documents s))"
    and "distinct (map ver_id (versions s))"
    and "\<And>d. d \<in> set (documents s) \<Longrightarrow> \<exists>v \<in> set (versions s).
        ver_id v = currentVersion d \<and> ver_document v = doc_id d \<and>
        (\<forall>w \<in> set (versions s). ver_document w = doc_id d \<longrightarrow> version w \<le> version v)"
    and "\<And>v w. v \<in> set (versions s) \<Longrightarrow> w \<in> set (versions s) \<Longrightarrow>
        ver_document v = ver_document w \<Longrightarrow> version v = version w \<Longrightarrow> ver_id v = ver_id w"
  shows "versions_inv s"
  using assms unfolding versions_inv_def by blast

lemma versions_inv_frame:
  assumes inv: "versions_inv s"
    and D: "documents s' = map f (documents s)" and V: "versions s' = map g (versions s)"
    and n: "nextId s \<le> nextId s'"
    and f: "\<And>d. doc_id (f d) = doc_id d" "\<And>d. currentVersion (f d) = currentVersion d"
    and g: "\<And>v. ver_id (g v) = ver_id v" "\<And>v. ver_document (g v) = ver_document v"
      "\<And>v. version (g v) = version v"
  shows "versions_inv s'"
proof (rule versions_invI)
  note i = versions_invD [OF inv]
  have md: "map doc_id (documents s') = map doc_id (documents s)"
    by (simp add: D f comp_def)
  have mv: "map ver_id (versions s') = map ver_id (versions s)"
    by (simp add: V g comp_def)
  have Dd: "\<exists>d. d \<in> set (documents s) \<and> d' = f d" if "d' \<in> set (documents s')" for d'
    using that unfolding D set_map by blast
  have Vv: "\<exists>v. v \<in> set (versions s) \<and> v' = g v" if "v' \<in> set (versions s')" for v'
    using that unfolding V set_map by blast
  {
    fix d' assume "d' \<in> set (documents s')"
    then obtain d where d: "d \<in> set (documents s)" "d' = f d" using Dd by blast
    from i(1) [OF d(1)] n show "doc_id d' < nextId s'" by (simp add: d(2) f)
  next
    fix v' assume "v' \<in> set (versions s')"
    then obtain v where v: "v \<in> set (versions s)" "v' = g v" using Vv by blast
    from i(2) [OF v(1)] n show "ver_id v' < nextId s'" by (simp add: v(2) g)
  next
    fix v' assume "v' \<in> set (versions s')"
    then obtain v where v: "v \<in> set (versions s)" "v' = g v" using Vv by blast
    from i(3) [OF v(1)] n show "ver_document v' < nextId s'" by (simp add: v(2) g)
  next
    show "distinct (map doc_id (documents s'))" using i(4) by (simp only: md)
  next
    show "distinct (map ver_id (versions s'))" using i(5) by (simp only: mv)
  next
    fix d' assume "d' \<in> set (documents s')"
    then obtain d where d: "d \<in> set (documents s)" "d' = f d" using Dd by blast
    from i(6) [OF d(1)] obtain v where v: "v \<in> set (versions s)" "ver_id v = currentVersion d"
      "ver_document v = doc_id d"
      "\<forall>w \<in> set (versions s). ver_document w = doc_id d \<longrightarrow> version w \<le> version v"
      by blast
    have mx: "version w' \<le> version (g v)" if "w' \<in> set (versions s')" "ver_document w' = doc_id d'" for w'
    proof -
      from that(1) obtain w where w: "w \<in> set (versions s)" "w' = g w" using Vv by blast
      from that(2) have "ver_document w = doc_id d" by (simp add: w(2) d(2) f g)
      with v(4) w(1) have "version w \<le> version v" by blast
      then show ?thesis by (simp add: w(2) g)
    qed
    have "g v \<in> set (versions s')" using v(1) by (simp add: V)
    moreover have "ver_id (g v) = currentVersion d'" by (simp add: g f d(2) v(2))
    moreover have "ver_document (g v) = doc_id d'" by (simp add: g f d(2) v(3))
    ultimately show "\<exists>v \<in> set (versions s').
        ver_id v = currentVersion d' \<and> ver_document v = doc_id d' \<and>
        (\<forall>w \<in> set (versions s'). ver_document w = doc_id d' \<longrightarrow> version w \<le> version v)"
      using mx by blast
  next
    fix v' w' assume a: "v' \<in> set (versions s')" "w' \<in> set (versions s')"
      "ver_document v' = ver_document w'" "version v' = version w'"
    from a(1) obtain v where v: "v \<in> set (versions s)" "v' = g v" using Vv by blast
    from a(2) obtain w where w: "w \<in> set (versions s)" "w' = g w" using Vv by blast
    from a(3,4) have "ver_document v = ver_document w" "version v = version w"
      by (simp_all add: v(2) w(2) g)
    from i(7) [OF v(1) w(1) this] show "ver_id v' = ver_id w'" by (simp add: v(2) w(2) g)
  }
qed

lemma versions_inv_create:
  assumes inv: "versions_inv s"
    and D: "documents s' = documents s @ [d0]" and V: "versions s' = versions s @ [v0]"
    and d0: "doc_id d0 = nextId s" "currentVersion d0 = Suc (nextId s)"
    and v0: "ver_id v0 = Suc (nextId s)" "ver_document v0 = nextId s"
    and n: "nextId s' = Suc (Suc (nextId s))"
  shows "versions_inv s'"
proof (rule versions_invI)
  note i = versions_invD [OF inv]
  have Dd: "d \<in> set (documents s) \<or> d = d0" if "d \<in> set (documents s')" for d
    using that by (auto simp: D)
  have Vv: "v \<in> set (versions s) \<or> v = v0" if "v \<in> set (versions s')" for v
    using that by (auto simp: V)
  have old: "ver_document w \<noteq> nextId s" if "w \<in> set (versions s)" for w
    using i(3) [OF that] by simp
  {
    fix d assume "d \<in> set (documents s')"
    from Dd [OF this] show "doc_id d < nextId s'"
      using i(1) [of d] by (auto simp: n d0)
  next
    fix v assume "v \<in> set (versions s')"
    from Vv [OF this] show "ver_id v < nextId s'"
      using i(2) [of v] by (auto simp: n v0)
  next
    fix v assume "v \<in> set (versions s')"
    from Vv [OF this] show "ver_document v < nextId s'"
      using i(3) [of v] by (auto simp: n v0)
  next
    have "nextId s \<notin> doc_id ` set (documents s)" using i(1) by fastforce
    with i(4) show "distinct (map doc_id (documents s'))" by (simp add: D d0)
  next
    have "Suc (nextId s) \<notin> ver_id ` set (versions s)" using i(2) by fastforce
    with i(5) show "distinct (map ver_id (versions s'))" by (simp add: V v0)
  next
    fix d assume "d \<in> set (documents s')"
    from Dd [OF this] show "\<exists>v \<in> set (versions s').
        ver_id v = currentVersion d \<and> ver_document v = doc_id d \<and>
        (\<forall>w \<in> set (versions s'). ver_document w = doc_id d \<longrightarrow> version w \<le> version v)"
    proof
      assume d: "d \<in> set (documents s)"
      from i(6) [OF d] obtain v where v: "v \<in> set (versions s)" "ver_id v = currentVersion d"
        "ver_document v = doc_id d"
        "\<forall>w \<in> set (versions s). ver_document w = doc_id d \<longrightarrow> version w \<le> version v"
        by blast
      have "doc_id d \<noteq> nextId s" using i(1) [OF d] by simp
      then have "\<forall>w \<in> set (versions s'). ver_document w = doc_id d \<longrightarrow> version w \<le> version v"
        using v(4) by (simp add: V v0)
      moreover have "v \<in> set (versions s')" using v(1) by (simp add: V)
      ultimately show ?thesis using v(2,3) by blast
    next
      assume d: "d = d0"
      have "\<forall>w \<in> set (versions s'). ver_document w = doc_id d \<longrightarrow> version w \<le> version v0"
        using old by (auto simp: V d d0)
      moreover have "v0 \<in> set (versions s')" by (simp add: V)
      moreover have "ver_id v0 = currentVersion d" "ver_document v0 = doc_id d"
        by (simp_all add: d d0 v0)
      ultimately show ?thesis by blast
    qed
  next
    fix v w assume a: "v \<in> set (versions s')" "w \<in> set (versions s')"
      "ver_document v = ver_document w" "version v = version w"
    from Vv [OF a(1)] Vv [OF a(2)] show "ver_id v = ver_id w"
      using i(7) [of v w] old [of v] old [of w] a(3,4) by (auto simp: v0)
  }
qed

lemma current_is_highest:
  assumes inv: "versions_inv s"
    and dfind: "find (\<lambda>x. doc_id x = i) (documents s) = Some d"
    and cfind: "find (\<lambda>v. ver_id v = currentVersion d) (versions s) = Some cur"
  shows "ver_document cur = i \<and>
         (\<forall>w \<in> set (versions s). ver_document w = i \<longrightarrow> version w \<le> version cur)"
proof -
  note i = versions_invD [OF inv]
  from find_SomeD [OF dfind] have d: "d \<in> set (documents s)" "doc_id d = i" by simp_all
  from find_SomeD [OF cfind] have c: "cur \<in> set (versions s)" "ver_id cur = currentVersion d"
    by simp_all
  from i(6) [OF d(1)] obtain v where v: "v \<in> set (versions s)" "ver_id v = currentVersion d"
    "ver_document v = doc_id d"
    "\<forall>w \<in> set (versions s). ver_document w = doc_id d \<longrightarrow> version w \<le> version v"
    by blast
  from i(5) have "inj_on ver_id (set (versions s))" by (simp add: distinct_map)
  moreover have "ver_id v = ver_id cur" using v(2) c(2) by simp
  ultimately have "v = cur" using v(1) c(1) by (rule inj_onD)
  with v(3,4) d(2) show ?thesis by simp
qed

lemma versions_inv_new_version:
  assumes inv: "versions_inv s"
    and dfind: "find (\<lambda>x. doc_id x = i) (documents s) = Some d"
    and cfind: "find (\<lambda>v. ver_id v = currentVersion d) (versions s) = Some cur"
    and D: "documents s' = map (\<lambda>x. if doc_id x = i then f x else x) (documents s)"
    and f: "\<And>x. doc_id (f x) = doc_id x" "\<And>x. currentVersion (f x) = nextId s"
    and V: "versions s' = versions s @ [v0]"
    and v0: "ver_id v0 = nextId s" "ver_document v0 = i" "version v0 = Suc (version cur)"
    and n: "nextId s' = Suc (nextId s)"
  shows "versions_inv s'"
proof (rule versions_invI)
  note i = versions_invD [OF inv]
  from find_SomeD [OF dfind] have d: "d \<in> set (documents s)" "doc_id d = i" by simp_all
  from current_is_highest [OF inv dfind cfind]
  have mx: "version w \<le> version cur" if "w \<in> set (versions s)" "ver_document w = i" for w
    using that by blast
  have md: "map doc_id (documents s') = map doc_id (documents s)"
    by (simp add: D f comp_def cong: if_cong)
  have Dd: "\<exists>x. x \<in> set (documents s) \<and> d' = (if doc_id x = i then f x else x)"
    if "d' \<in> set (documents s')" for d'
    using that unfolding D set_map by blast
  have Vv: "v \<in> set (versions s) \<or> v = v0" if "v \<in> set (versions s')" for v
    using that by (auto simp: V)
  have ilt: "i < nextId s" using i(1) [OF d(1)] d(2) by simp
  {
    fix d' assume "d' \<in> set (documents s')"
    then obtain x where x: "x \<in> set (documents s)" "d' = (if doc_id x = i then f x else x)"
      using Dd by blast
    have "doc_id d' = doc_id x" by (simp add: x(2) f)
    with i(1) [OF x(1)] show "doc_id d' < nextId s'" by (simp add: n)
  next
    fix v assume "v \<in> set (versions s')"
    from Vv [OF this] show "ver_id v < nextId s'"
      using i(2) [of v] by (auto simp: n v0)
  next
    fix v assume "v \<in> set (versions s')"
    from Vv [OF this] show "ver_document v < nextId s'"
      using i(3) [of v] ilt by (auto simp: n v0)
  next
    show "distinct (map doc_id (documents s'))" using i(4) by (simp only: md)
  next
    have "nextId s \<notin> ver_id ` set (versions s)" using i(2) by fastforce
    with i(5) show "distinct (map ver_id (versions s'))" by (simp add: V v0)
  next
    fix d' assume "d' \<in> set (documents s')"
    then obtain x where x: "x \<in> set (documents s)" "d' = (if doc_id x = i then f x else x)"
      using Dd by blast
    show "\<exists>v \<in> set (versions s').
        ver_id v = currentVersion d' \<and> ver_document v = doc_id d' \<and>
        (\<forall>w \<in> set (versions s'). ver_document w = doc_id d' \<longrightarrow> version w \<le> version v)"
    proof (cases "doc_id x = i")
      case True
      with x(2) have d': "d' = f x" by simp
      have "\<forall>w \<in> set (versions s'). ver_document w = doc_id d' \<longrightarrow> version w \<le> version v0"
      proof (intro ballI impI)
        fix w assume w: "w \<in> set (versions s')" "ver_document w = doc_id d'"
        from w(2) have wi: "ver_document w = i" by (simp add: d' f True)
        from Vv [OF w(1)] show "version w \<le> version v0"
        proof
          assume "w \<in> set (versions s)"
          from mx [OF this wi] show ?thesis by (simp add: v0)
        next
          assume "w = v0" then show ?thesis by simp
        qed
      qed
      moreover have "v0 \<in> set (versions s')" by (simp add: V)
      moreover have "ver_id v0 = currentVersion d'" "ver_document v0 = doc_id d'"
        by (simp_all add: d' f v0 True)
      ultimately show ?thesis by blast
    next
      case False
      with x(2) have d': "d' = x" by simp
      from i(6) [OF x(1)] obtain v where v: "v \<in> set (versions s)" "ver_id v = currentVersion x"
        "ver_document v = doc_id x"
        "\<forall>w \<in> set (versions s). ver_document w = doc_id x \<longrightarrow> version w \<le> version v"
        by blast
      have "\<forall>w \<in> set (versions s'). ver_document w = doc_id d' \<longrightarrow> version w \<le> version v"
        using v(4) False by (simp add: V v0 d')
      moreover have "v \<in> set (versions s')" using v(1) by (simp add: V)
      ultimately show ?thesis using v(2,3) d' by blast
    qed
  next
    fix v w assume a: "v \<in> set (versions s')" "w \<in> set (versions s')"
      "ver_document v = ver_document w" "version v = version w"
    from Vv [OF a(1)] Vv [OF a(2)] show "ver_id v = ver_id w"
      using i(7) [of v w] mx [of v] mx [of w] a(3,4) by (auto simp: v0)
  }
qed

lemma versions_inv_same:
  assumes "versions_inv s" and "documents s' = documents s" and "versions s' = versions s"
    and "nextId s \<le> nextId s'"
  shows "versions_inv s'"
  by (rule versions_inv_frame [OF assms(1), where f = "\<lambda>d. d" and g = "\<lambda>v. v"])
     (simp_all add: assms)

lemma postDocument_versions_inv:
  assumes "versions_inv s"
  shows "versions_inv (snd (postDocument s user body))"
proof -
  let ?r = "snd (postDocument s user body)"
  have "?r = s \<or>
    (\<exists>d0 v0. documents ?r = documents s @ [d0] \<and> versions ?r = versions s @ [v0] \<and>
       doc_id d0 = nextId s \<and> currentVersion d0 = Suc (nextId s) \<and>
       ver_id v0 = Suc (nextId s) \<and> ver_document v0 = nextId s \<and>
       nextId ?r = Suc (Suc (nextId s)))"
    by (simp add: postDocument_def Document_create_def setDocumentClosesNotification_def Let_def
        split: option.splits)
  then show ?thesis
  proof
    assume "?r = s" with assms show ?thesis by simp
  next
    assume "\<exists>d0 v0. documents ?r = documents s @ [d0] \<and> versions ?r = versions s @ [v0] \<and>
       doc_id d0 = nextId s \<and> currentVersion d0 = Suc (nextId s) \<and>
       ver_id v0 = Suc (nextId s) \<and> ver_document v0 = nextId s \<and>
       nextId ?r = Suc (Suc (nextId s))"
    then obtain d0 v0 where "documents ?r = documents s @ [d0]" "versions ?r = versions s @ [v0]"
       "doc_id d0 = nextId s" "currentVersion d0 = Suc (nextId s)"
       "ver_id v0 = Suc (nextId s)" "ver_document v0 = nextId s"
       "nextId ?r = Suc (Suc (nextId s))" by blast
    then show ?thesis by (rule versions_inv_create [OF assms])
  qed
qed

lemma createComment_versions_inv:
  assumes "versions_inv s"
  shows "versions_inv (snd (createComment s now user i body))"
proof -
  let ?r = "snd (createComment s now user i body)"
  let ?f = "\<lambda>x. if doc_id x = i then x\<lparr>commentsCount := Suc (commentsCount x)\<rparr> else x"
  have "?r = s \<or> (documents ?r = map ?f (documents s) \<and> versions ?r = versions s \<and>
      nextId ?r = Suc (nextId s))"
    by (simp add: createComment_def Comment_create_def Document_addComment_def Let_def
        split: option.splits)
  then show ?thesis
  proof
    assume "?r = s" with assms show ?thesis by simp
  next
    assume a: "documents ?r = map ?f (documents s) \<and> versions ?r = versions s \<and>
      nextId ?r = Suc (nextId s)"
    show ?thesis
      by (rule versions_inv_frame [OF assms, where f = ?f and g = "\<lambda>v. v"]) (simp_all add: a)
  qed
qed

lemma resolveComment_versions_inv:
  assumes "versions_inv s"
  shows "versions_inv (snd (resolveComment s user i idComment))"
  by (rule versions_inv_same [OF assms])
     (simp_all add: resolveComment_def Comment_resolve_def sendCommentNotification_def
       split: option.splits)

lemma replyComment_versions_inv:
  assumes "versions_inv s"
  shows "versions_inv (snd (replyComment s user i idComment r))"
  by (rule versions_inv_same [OF assms])
     (simp_all add: replyComment_def Comment_reply_def split: option.splits)

lemma likeComment_versions_inv:
  assumes "versions_inv s"
  shows "versions_inv (snd (likeComment s user i idComment))"
  by (rule versions_inv_same [OF assms])
     (simp_all add: likeComment_def Like_create_def Like_remove_def sendCommentNotification_def
       Let_def split: option.splits)

lemma putDocument_unchanged:
  assumes "\<not> (\<exists>d cur. Document_get s i = Some (d, Some cur) \<and> u_id user = author d)"
  shows "snd (putDocument s user i body) = s"
  using assms by (auto simp: putDocument_def split: option.splits)

lemma putDocument_new_version:
  assumes g: "Document_get s i = Some (d, Some cur)" and a: "u_id user = author d"
    and c: "bd_contributions body = Some cs" "cs \<noteq> []"
  shows "fst (putDocument s user i body) =
           Inr (merge_document d (bd_published body) (bd_closed body) (Some (nextId s)))"
    and "versions (snd (putDocument s user i body)) =
           versions s @ [\<lparr>ver_id = nextId s, ver_document = i, version = version cur + 1,
                           ver_content = bd_content body, contributions = cs\<rparr>]"
    and "documents (snd (putDocument s user i body)) =
           map (\<lambda>x. if doc_id x = i
                     then merge_document x (bd_published body) (bd_closed body) (Some (nextId s))
                     else x) (documents s)"
    and "nextId (snd (putDocument s user i body)) = Suc (nextId s)"
proof -
  note f = Document_get_SomeD(1) [OF g]
  from find_SomeD [OF f] have di: "doc_id d = i" by simp
  have h: "has_items (bd_contributions body)" "items (bd_contributions body) = cs"
    using c by (simp_all add: has_items_def items_def)
  show "fst (putDocument s user i body) =
           Inr (merge_document d (bd_published body) (bd_closed body) (Some (nextId s)))"
    using g a h f di
    by (simp add: putDocument_def Comment_updateDecorations_def DocumentVersion_create_def
        Document_update_def foldl_send Let_def)
  show "versions (snd (putDocument s user i body)) =
           versions s @ [\<lparr>ver_id = nextId s, ver_document = i, version = version cur + 1,
                           ver_content = bd_content body, contributions = cs\<rparr>]"
    using g a h f di
    by (simp add: putDocument_def Comment_updateDecorations_def DocumentVersion_create_def
        Document_update_def setDocumentClosesNotification_def foldl_send Let_def
        split: option.splits)
  show "documents (snd (putDocument s user i body)) =
           map (\<lambda>x. if doc_id x = i
                     then merge_document x (bd_published body) (bd_closed body) (Some (nextId s))
                     else x) (documents s)"
    using g a h f di
    by (simp add: putDocument_def Comment_updateDecorations_def DocumentVersion_create_def
        Document_update_def setDocumentClosesNotification_def foldl_send Let_def
        split: option.splits)
  show "nextId (snd (putDocument s user i body)) = Suc (nextId s)"
    using g a h f di
    by (simp add: putDocument_def Comment_updateDecorations_def DocumentVersion_create_def
        Document_update_def setDocumentClosesNotification_def foldl_send Let_def
        split: option.splits)
qed

lemma putDocument_in_place:
  assumes g: "Document_get s i = Some (d, Some cur)" and a: "u_id user = author d"
    and c: "bd_contributions body = None \<or> bd_contributions body = Some []"
  shows "fst (putDocument s user i body) =
           Inr (merge_document d (bd_published body) (bd_closed body) None)"
    and "versions (snd (putDocument s user i body)) =
           map (\<lambda>v. if ver_id v = ver_id cur then v\<lparr>ver_content := bd_content body\<rparr> else v)
             (versions s)"
    and "documents (snd (putDocument s user i body)) =
           map (\<lambda>x. if doc_id x = i
                     then merge_document x (bd_published body) (bd_closed body) None
                     else x) (documents s)"
    and "nextId (snd (putDocument s user i body)) = nextId s"
proof -
  note f = Document_get_SomeD(1) [OF g]
  from find_SomeD [OF f] have di: "doc_id d = i" by simp
  have h: "\<not> has_items (bd_contributions body)"
    using c by (auto simp: has_items_def)
  show "fst (putDocument s user i body) =
           Inr (merge_document d (bd_published body) (bd_closed body) None)"
    using g a h f di
    by (simp add: putDocument_def Comment_updateDecorations_def DocumentVersion_update_def
        Document_update_def Let_def)
  show "versions (snd (putDocument s user i body)) =
           map (\<lambda>v. if ver_id v = ver_id cur then v\<lparr>ver_content := bd_content body\<rparr> else v)
             (versions s)"
    using g a h f di
    by (simp add: putDocument_def Comment_updateDecorations_def DocumentVersion_update_def
        Document_update_def setDocumentClosesNotification_def Let_def split: option.splits)
  show "documents (snd (putDocument s user i body)) =
           map (\<lambda>x. if doc_id x = i
                     then merge_document x (bd_published body) (bd_closed body) None
                     else x) (documents s)"
    using g a h f di
    by (simp add: putDocument_def Comment_updateDecorations_def DocumentVersion_update_def
        Document_update_def setDocumentClosesNotification_def Let_def split: option.splits)
  show "nextId (snd (putDocument s user i body)) = nextId s"
    using g a h f di
    by (simp add: putDocument_def Comment_updateDecorations_def DocumentVersion_update_def
        Document_update_def setDocumentClosesNotification_def Let_def split: option.splits)
qed

lemma putDocument_versions_inv:
  assumes inv: "versions_inv s"
  shows "versions_inv (snd (putDocument s user i body))"
proof (cases "\<exists>d cur. Document_get s i = Some (d, Some cur) \<and> u_id user = author d")
  case False
  from putDocument_unchanged [OF this] inv show ?thesis by simp
next
  case True
  then obtain d cur where g: "Document_get s i = Some (d, Some cur)" and a: "u_id user = author d"
    by blast
  note f = Document_get_SomeD [OF g]
  show ?thesis
  proof (cases "bd_contributions body = None \<or> bd_contributions body = Some []")
    case True
    note p = putDocument_in_place [OF g a True]
    show ?thesis
      by (rule versions_inv_frame [OF inv p(3) p(2)]) (simp_all add: p(4) merge_document_sel)
  next
    case False
    then obtain cs where c: "bd_contributions body = Some cs" "cs \<noteq> []" by auto
    note p = putDocument_new_version [OF g a c]
    show ?thesis
      by (rule versions_inv_new_version [OF inv f(1) f(2) p(3) _ _ p(2) _ _ _ p(4)])
         (simp_all add: merge_document_sel)
  qed
qed

lemma reachable_versions_inv: "reachable s \<Longrightarrow> versions_inv s"
proof (induction rule: reachable.induct)
  case (r_init forms limit)
  show ?case by (rule versions_inv_init)
next
  case (r_postDocument s user pbody)
  from r_postDocument.IH show ?case by (rule postDocument_versions_inv)
next
  case (r_putDocument s user i body)
  from r_putDocument.IH show ?case by (rule putDocument_versions_inv)
next
  case (r_createComment s now user i cbody)
  from r_createComment.IH show ?case by (rule createComment_versions_inv)
next
  case (r_resolveComment s user i idComment)
  from r_resolveComment.IH show ?case by (rule resolveComment_versions_inv)
next
  case (r_likeComment s user i idComment)
  from r_likeComment.IH show ?case by (rule likeComment_versions_inv)
next
  case (r_replyComment s user i idComment r)
  from r_replyComment.IH show ?case by (rule replyComment_versions_inv)
qed

lemma advance_current:
  assumes inv: "versions_inv s"
    and g: "Document_get s i = Some (d, Some cur)" and a: "u_id user = author d"
    and c: "bd_contributions body = Some cs" "cs \<noteq> []"
  shows "Document_get (snd (putDocument s user i body)) i =
    Some (merge_document d (bd_published body) (bd_closed body) (Some (nextId s)),
          Some \<lparr>ver_id = nextId s, ver_document = i, version = version cur + 1,
                 ver_content = bd_content body, contributions = cs\<rparr>)"
proof -
  note p = putDocument_new_version [OF g a c]
  note f = Document_get_SomeD [OF g]
  have "find (\<lambda>v. ver_id v = nextId s) (versions s) = None"
    using versions_invD(2) [OF inv] by (fastforce simp: find_None_iff)
  then have v: "find (\<lambda>v. ver_id v = nextId s) (versions (snd (putDocument s user i body))) =
      Some \<lparr>ver_id = nextId s, ver_document = i, version = version cur + 1,
                 ver_content = bd_content body, contributions = cs\<rparr>"
    by (simp add: p(2) find_append_last)
  have d: "find (\<lambda>x. doc_id x = i) (documents (snd (putDocument s user i body))) =
      Some (merge_document d (bd_published body) (bd_closed body) (Some (nextId s)))"
    unfolding p(3)
    by (simp add: find_map_same_id [where key = doc_id] merge_document_sel f(1))
  show ?thesis
    unfolding Document_get_def d by (simp add: merge_document_sel v)
qed

lemma keep_current:
  assumes g: "Document_get s i = Some (d, Some cur)" and a: "u_id user = author d"
    and c: "bd_contributions body = None \<or> bd_contributions body = Some []"
  shows "Document_get (snd (putDocument s user i body)) i =
    Some (merge_document d (bd_published body) (bd_closed body) None,
          Some (cur\<lparr>ver_content := bd_content body\<rparr>))"
proof -
  note p = putDocument_in_place [OF g a c]
  note f = Document_get_SomeD [OF g]
  from find_SomeD [OF f(2)] have k: "currentVersion d = ver_id cur" by simp
  have v: "find (\<lambda>v. ver_id v = ver_id cur) (versions (snd (putDocument s user i body))) =
      Some (cur\<lparr>ver_content := bd_content body\<rparr>)"
    unfolding p(2)
    using f(2) by (simp add: find_map_same_id [where key = ver_id] k)
  have d: "find (\<lambda>x. doc_id x = i) (documents (snd (putDocument s user i body))) =
      Some (merge_document d (bd_published body) (bd_closed body) None)"
    unfolding p(3)
    by (simp add: find_map_same_id [where key = doc_id] merge_document_sel f(1))
  show ?thesis
    unfolding Document_get_def d by (simp add: merge_document_sel k v)
qed

lemma versions_unique:
  assumes inv: "versions_inv s"
    and "v \<in> set (versions s)" "w \<in> set (versions s)"
    and "ver_document v = ver_document w" "version v = version w"
  shows "v = w"
proof -
  from versions_invD(5) [OF inv] have "inj_on ver_id (set (versions s))"
    by (simp add: distinct_map)
  moreover have "ver_id v = ver_id w" using versions_invD(7) [OF inv] assms(2-5) by blast
  ultimately show ?thesis using assms(2,3) by (rule inj_onD)
qed

lemma reachable_current_version:
  assumes "reachable s" and "Document_get s i = Some (d, cv)"
  shows "cv \<noteq> None"
proof -
  from assms(1) have inv: "versions_inv s" by (rule reachable_versions_inv)
  note f = Document_get_SomeD [OF assms(2)]
  from find_SomeD [OF f(1)] have "d \<in> set (documents s)" by simp
  from versions_invD(6) [OF inv this] obtain v where
    "v \<in> set (versions s)" "ver_id v = currentVersion d" by blast
  then have "find (\<lambda>v. ver_id v = currentVersion d) (versions s) \<noteq> None"
    by (auto simp: find_None_iff)
  with f(2) show ?thesis by simp
qed

section \<open>Updating a document\<close>

text \<open>
  Claim C1. In a reachable state, an update by the author of an existing document with a
  non-empty list of contributions is answered and appends one version, with a fresh
  identifier, the number of the current version plus 1, the content of the request and the
  contributions of the request; the document then has this version as its current one.
  With contributions empty or missing, the update is answered, no version is added, the
  current version keeps its identifier and number and gets the content of the request, and
  all other versions stay as they were. Every document of a reachable state has a current
  version, and two versions of the same document with the same number are the same version.
\<close>

theorem putDocument_versioning:
  assumes "reachable s"
  shows "(\<forall>d cur cs. Document_get s i = Some (d, Some cur) \<and> u_id user = author d \<and>
            bd_contributions body = Some cs \<and> cs \<noteq> [] \<longrightarrow>
            (\<exists>d' s' v. putDocument s user i body = (Inr d', s') \<and>
               versions s' = versions s @ [v] \<and> ver_id v \<notin> ver_id ` set (versions s) \<and>
               ver_document v = i \<and> version v = version cur + 1 \<and>
               ver_content v = bd_content body \<and> contributions v = cs \<and>
               Document_get s' i = Some (d', Some v))) \<and>
         (\<forall>d cur. Document_get s i = Some (d, Some cur) \<and> u_id user = author d \<and>
            (bd_contributions body = None \<or> bd_contributions body = Some []) \<longrightarrow>
            (\<exists>d' s'. putDocument s user i body = (Inr d', s') \<and>
               versions s' =
                 map (\<lambda>v. if ver_id v = ver_id cur then v\<lparr>ver_content := bd_content body\<rparr> else v)
                   (versions s) \<and>
               Document_get s' i = Some (d', Some (cur\<lparr>ver_content := bd_content body\<rparr>)))) \<and>
         (\<forall>d cv. Document_get s i = Some (d, cv) \<longrightarrow> cv \<noteq> None) \<and>
         (\<forall>v \<in> set (versions s). \<forall>w \<in> set (versions s).
            ver_document v = ver_document w \<and> version v = version w \<longrightarrow> v = w)"
proof (intro conjI allI impI ballI)
  from assms have inv: "versions_inv s" by (rule reachable_versions_inv)
  {
    fix d cur cs
    assume h: "Document_get s i = Some (d, Some cur) \<and> u_id user = author d \<and>
            bd_contributions body = Some cs \<and> cs \<noteq> []"
    then have g: "Document_get s i = Some (d, Some cur)" and a: "u_id user = author d"
      and c: "bd_contributions body = Some cs" "cs \<noteq> []" by simp_all
    let ?v = "\<lparr>ver_id = nextId s, ver_document = i, version = version cur + 1,
                 ver_content = bd_content body, contributions = cs\<rparr>"
    let ?d = "merge_document d (bd_published body) (bd_closed body) (Some (nextId s))"
    let ?s = "snd (putDocument s user i body)"
    note p = putDocument_new_version [OF g a c]
    have 1: "putDocument s user i body = (Inr ?d, ?s)"
      using p(1) by (simp add: prod_eq_iff)
    have 2: "ver_id ?v \<notin> ver_id ` set (versions s)"
      using versions_invD(2) [OF inv] by fastforce
    have 3: "Document_get ?s i = Some (?d, Some ?v)"
      by (rule advance_current [OF inv g a c])
    show "\<exists>d' s' v. putDocument s user i body = (Inr d', s') \<and>
               versions s' = versions s @ [v] \<and> ver_id v \<notin> ver_id ` set (versions s) \<and>
               ver_document v = i \<and> version v = version cur + 1 \<and>
               ver_content v = bd_content body \<and> contributions v = cs \<and>
               Document_get s' i = Some (d', Some v)"
      apply (rule exI [of _ ?d], rule exI [of _ ?s], rule exI [of _ ?v])
      apply (intro conjI)
             apply (rule 1)
            apply (rule p(2))
           apply (rule 2)
          apply (simp_all add: 3)
      done
  next
    fix d cur
    assume h: "Document_get s i = Some (d, Some cur) \<and> u_id user = author d \<and>
            (bd_contributions body = None \<or> bd_contributions body = Some [])"
    then have g: "Document_get s i = Some (d, Some cur)" and a: "u_id user = author d"
      and c: "bd_contributions body = None \<or> bd_contributions body = Some []" by simp_all
    let ?d = "merge_document d (bd_published body) (bd_closed body) None"
    let ?s = "snd (putDocument s user i body)"
    note p = putDocument_in_place [OF g a c]
    have 1: "putDocument s user i body = (Inr ?d, ?s)"
      using p(1) by (simp add: prod_eq_iff)
    have 3: "Document_get ?s i = Some (?d, Some (cur\<lparr>ver_content := bd_content body\<rparr>))"
      by (rule keep_current [OF g a c])
    show "\<exists>d' s'. putDocument s user i body = (Inr d', s') \<and>
               versions s' =
                 map (\<lambda>v. if ver_id v = ver_id cur then v\<lparr>ver_content := bd_content body\<rparr> else v)
                   (versions s) \<and>
               Document_get s' i = Some (d', Some (cur\<lparr>ver_content := bd_content body\<rparr>))"
      apply (rule exI [of _ ?d], rule exI [of _ ?s])
      apply (intro conjI)
        apply (rule 1)
       apply (rule p(2))
      apply (rule 3)
      done
  next
    fix d cv assume "Document_get s i = Some (d, cv)"
    with assms show "cv \<noteq> None" by (rule reachable_current_version)
  next
    fix v w
    assume "v \<in> set (versions s)" "w \<in> set (versions s)"
      "ver_document v = ver_document w \<and> version v = version w"
    then show "v = w" using versions_unique [OF inv, of v w] by blast
  }
qed

theorem putDocument_versioning_witness:
  "(\<exists>d' s' v. putDocument st4 alice 0 merge_body = (Inr d', s') \<and>
      versions s' = versions st4 @ [v] \<and> ver_document v = 0 \<and> version v = 2 \<and>
      contributions v = [2] \<and> Document_get s' 0 = Some (d', Some v)) \<and>
   (\<exists>d' s'. putDocument st5 alice 0 amend_body = (Inr d', s') \<and>
      map version (versions s') = map version (versions st5) \<and>
      (\<exists>v. Document_get s' 0 = Some (d', Some v) \<and> ver_id v = 6 \<and> version v = 2 \<and>
         ver_content v = bd_content amend_body)) \<and>
   version \<lparr>ver_id = 1, ver_document = 0, version = 1,
          ver_content = Some \<lparr>closingDate = Undefined, customFields = ''draft''\<rparr>,
          contributions = []\<rparr> \<noteq>
   version \<lparr>ver_id = 6, ver_document = 0, version = 2,
          ver_content = Some \<lparr>closingDate = DateString 500, customFields = ''final''\<rparr>,
          contributions = [2]\<rparr>"
proof -
  let ?v1 = "\<lparr>ver_id = 1, ver_document = 0, version = 1,
          ver_content = Some \<lparr>closingDate = Undefined, customFields = ''draft''\<rparr>,
          contributions = []\<rparr>"
  let ?v6 = "\<lparr>ver_id = 6, ver_document = 0, version = 2,
          ver_content = Some \<lparr>closingDate = DateString 500, customFields = ''final''\<rparr>,
          contributions = [2]\<rparr>"
  let ?d4 = "\<lparr>doc_id = 0, author = 1, customForm = 7, published = False,
             closed = None, currentVersion = 1, commentsCount = 2\<rparr>"
  let ?d5 = "\<lparr>doc_id = 0, author = 1, customForm = 7, published = True,
             closed = Some True, currentVersion = 6, commentsCount = 2\<rparr>"
  note t4 = putDocument_versioning [OF reachable_st4, of 0 alice merge_body]
  note t5 = putDocument_versioning [OF reachable_st5, of 0 alice amend_body]
  have h4: "Document_get st4 0 = Some (?d4, Some ?v1) \<and> u_id alice = author ?d4 \<and>
      bd_contributions merge_body = Some [2] \<and> [2::nat] \<noteq> []"
    by (simp add: Document_get_st4_0 alice_def merge_body_def)
  from t4 [THEN conjunct1, rule_format, OF h4]
  have 1: "\<exists>d' s' v. putDocument st4 alice 0 merge_body = (Inr d', s') \<and>
      versions s' = versions st4 @ [v] \<and> ver_document v = 0 \<and> version v = 2 \<and>
      contributions v = [2] \<and> Document_get s' 0 = Some (d', Some v)"
    by auto
  have h5: "Document_get st5 0 = Some (?d5, Some ?v6) \<and> u_id alice = author ?d5 \<and>
      (bd_contributions amend_body = None \<or> bd_contributions amend_body = Some [])"
    by (simp add: Document_get_st5_0 alice_def amend_body_def)
  from t5 [THEN conjunct2, THEN conjunct1, rule_format, OF h5]
  obtain d' s' where p: "putDocument st5 alice 0 amend_body = (Inr d', s')"
    "versions s' = map (\<lambda>v. if ver_id v = ver_id ?v6 then v\<lparr>ver_content := bd_content amend_body\<rparr> else v)
                   (versions st5)"
    "Document_get s' 0 = Some (d', Some (?v6\<lparr>ver_content := bd_content amend_body\<rparr>))"
    by blast
  have "map version (versions s') = map version (versions st5)"
    unfolding p(2) by (simp add: comp_def cong: if_cong)
  with p(1,3)
  have 2: "\<exists>d' s'. putDocument st5 alice 0 amend_body = (Inr d', s') \<and>
      map version (versions s') = map version (versions st5) \<and>
      (\<exists>v. Document_get s' 0 = Some (d', Some v) \<and> ver_id v = 6 \<and> version v = 2 \<and>
         ver_content v = bd_content amend_body)"
    by auto
  have m: "?v1 \<in> set (versions st5)" "?v6 \<in> set (versions st5)"
    by (simp_all add: st5_eq)
  have "?v1 \<noteq> ?v6" by simp
  with t5 [THEN conjunct2, THEN conjunct2, THEN conjunct2, rule_format, OF m]
  have 3: "version ?v1 \<noteq> version ?v6" by auto
  from 1 2 3 show ?thesis by (intro conjI)
qed

section \<open>Creating a document\<close>

text \<open>
  Claim C2. An attempt to create a document by an author whose documents (all of them,
  published or not) number at least the community's creation limit fails with
  \<open>ErrNotAuthorized\<close> (the spec's PolicyViolation) and leaves every store as it was. With
  one document less than the limit and a form reference that resolves, a document of the
  author is stored, which brings the author to the limit; it is the answer of the route as
  soon as the request carries a content (the route reads the closing date of the request's
  content after the document is stored).
\<close>

theorem postDocument_creation_limit:
  "(Document_countAuthorDocuments s (u_id user) \<ge> documentCreationLimit s \<longrightarrow>
      postDocument s user body = (Inl ErrNotAuthorized, s)) \<and>
   (Document_countAuthorDocuments s (u_id user) = documentCreationLimit s - 1 \<and>
    CustomForm_get_slug s (pb_customForm body) = Some form \<longrightarrow>
      (\<exists>d. documents (snd (postDocument s user body)) = documents s @ [d] \<and>
         author d = u_id user \<and> customForm d = form_id form \<and>
         Document_countAuthorDocuments (snd (postDocument s user body)) (u_id user) =
           documentCreationLimit s \<and>
         (pb_content body \<noteq> None \<longrightarrow> fst (postDocument s user body) = Inr d)))"
  by (auto simp: postDocument_def Community_get_def Document_create_def Let_def
      setDocumentClosesNotification_def Document_countAuthorDocuments_def split: option.splits)

theorem postDocument_creation_limit_witness:
  "Document_countAuthorDocuments st6 (u_id alice) \<ge> documentCreationLimit st6 \<and>
   postDocument st6 alice second_body = (Inl ErrNotAuthorized, st6) \<and>
   Document_countAuthorDocuments st6 (u_id carol) = documentCreationLimit st6 - 1 \<and>
   (\<exists>d. documents (snd (postDocument st6 carol second_body)) = documents st6 @ [d] \<and>
      author d = u_id carol \<and>
      Document_countAuthorDocuments (snd (postDocument st6 carol second_body)) (u_id carol) =
        documentCreationLimit st6 \<and>
      fst (postDocument st6 carol second_body) = Inr d)"
proof -
  have full: "Document_countAuthorDocuments st6 (u_id alice) \<ge> documentCreationLimit st6"
    by (simp add: st6_eq alice_def Document_countAuthorDocuments_def)
  have below: "Document_countAuthorDocuments st6 (u_id carol) = documentCreationLimit st6 - 1"
    by (simp add: st6_eq carol_def Document_countAuthorDocuments_def)
  have form: "CustomForm_get_slug st6 (pb_customForm second_body) =
      Some \<lparr>form_id = 7, slug = ''project'', allowComments = [''brief'']\<rparr>"
    by (simp add: st6_eq second_body_def CustomForm_get_slug_def)
  have c: "pb_content second_body \<noteq> None"
    by (simp add: second_body_def)
  from postDocument_creation_limit [of st6 alice second_body] full
  have 1: "postDocument st6 alice second_body = (Inl ErrNotAuthorized, st6)" by blast
  from postDocument_creation_limit [of st6 carol second_body
      "\<lparr>form_id = 7, slug = ''project'', allowComments = [''brief'']\<rparr>"] below form c
  have 2: "\<exists>d. documents (snd (postDocument st6 carol second_body)) = documents st6 @ [d] \<and>
      author d = u_id carol \<and>
      Document_countAuthorDocuments (snd (postDocument st6 carol second_body)) (u_id carol) =
        documentCreationLimit st6 \<and>
      fst (postDocument st6 carol second_body) = Inr d" by blast
  from full 1 below 2 show ?thesis by (intro conjI)
qed

section \<open>Commenting\<close>

text \<open>
  Claim C3. A comment on an existing document whose named field is not among the
  \<open>allowComments\<close> of the document's custom form fails with \<open>ErrInvalidParam\<close> and leaves
  every store as it was, whoever the acting user is (any identifier, any roles, the
  document's author included).
\<close>

theorem createComment_field_not_commentable:
  assumes "Document_get s i = Some (d, cv)"
    and "CustomForm_get s (customForm d) = Some form"
    and "cb_field body \<notin> set (allowComments form)"
  shows "createComment s now user i body = (Inl ErrInvalidParam, s)"
proof -
  from assms(3) have "find (\<lambda>x. x = cb_field body) (allowComments form) = None"
    by (simp add: find_None_iff)
  with assms(1,2) show ?thesis by (simp add: createComment_def)
qed

theorem createComment_field_not_commentable_witness:
  "createComment st5 50 alice 0 \<lparr>cb_field = ''title'', cb_content = ''x'', cb_decoration = None\<rparr>
     = (Inl ErrInvalidParam, st5) \<and>
   createComment st5 50 bob 0 \<lparr>cb_field = ''title'', cb_content = ''x'', cb_decoration = None\<rparr>
     = (Inl ErrInvalidParam, st5)"
proof -
  let ?d = "\<lparr>doc_id = 0, author = 1, customForm = 7, published = True,
        closed = Some True, currentVersion = 6, commentsCount = 2\<rparr>"
  let ?f = "\<lparr>form_id = 7, slug = ''project'', allowComments = [''brief'']\<rparr>"
  let ?b = "\<lparr>cb_field = ''title'', cb_content = ''x'', cb_decoration = None\<rparr>"
  have f: "CustomForm_get st5 (customForm ?d) = Some ?f"
    by (simp add: st5_eq CustomForm_get_def)
  have n: "cb_field ?b \<notin> set (allowComments ?f)" by simp
  show ?thesis
    using createComment_field_not_commentable [OF Document_get_st5_0 f n, of 50 alice]
      createComment_field_not_commentable [OF Document_get_st5_0 f n, of 50 bob]
    by simp
qed

text \<open>
  Claim C4, as the claim states it, fails: the route tests the field before the closing
  date. Carol's document closed at time 100; at time 200 a comment on its title, which is
  not a commentable field, is refused with \<open>ErrInvalidParam\<close>, not with \<open>ErrClosed\<close>.
\<close>

theorem createComment_closed_before_field_counterexample:
  "Document_get st5 3 =
     Some (\<lparr>doc_id = 3, author = 3, customForm = 7, published = False,
             closed = None, currentVersion = 4, commentsCount = 0\<rparr>,
           Some \<lparr>ver_id = 4, ver_document = 3, version = 1,
             ver_content = Some \<lparr>closingDate = DateString 100, customFields = ''law''\<rparr>,
             contributions = []\<rparr>) \<and>
   (100::int) < 200 \<and>
   createComment st5 200 bob 3 \<lparr>cb_field = ''title'', cb_content = ''late'', cb_decoration = None\<rparr>
     = (Inl ErrInvalidParam, st5) \<and>
   fst (createComment st5 200 bob 3 \<lparr>cb_field = ''title'', cb_content = ''late'', cb_decoration = None\<rparr>)
     \<noteq> Inl ErrClosed"
proof -
  have "createComment st5 200 bob 3 \<lparr>cb_field = ''title'', cb_content = ''late'', cb_decoration = None\<rparr>
     = (Inl ErrInvalidParam, st5)"
    by (simp add: createComment_def Document_get_st5_3) (simp add: st5_eq CustomForm_get_def)
  then show ?thesis by (simp add: Document_get_st5_3)
qed

text \<open>
  Claim C4, amended. A comment on a commentable field (a non-empty name that the custom
  form of the document lists in \<open>allowComments\<close>) of an existing document: when the
  current version's content carries a closing date strictly earlier than the current time,
  the attempt fails with \<open>ErrClosed\<close> and every store stays as it was; when the content
  has no closing date, the document is not taken as closed and the comment is stored and
  answered.
\<close>

theorem createComment_closed:
  assumes "Document_get s i = Some (d, Some v)" and "ver_content v = Some c"
    and "CustomForm_get s (customForm d) = Some form"
    and "cb_field body \<in> set (allowComments form)" and "cb_field body \<noteq> []"
  shows "(\<forall>t. closingDate c = DateString t \<and> t < now \<longrightarrow>
            createComment s now user i body = (Inl ErrClosed, s)) \<and>
         (closingDate c = Undefined \<longrightarrow>
            (\<exists>k s'. createComment s now user i body = (Inr k, s') \<and>
               comments s' = comments s @ [k] \<and> com_user k = u_id user \<and>
               com_document k = i \<and> com_version k = ver_id v \<and> field k = cb_field body \<and>
               com_content k = cb_content body \<and> \<not> resolved k))"
proof -
  from assms(4) obtain x where "find (\<lambda>x. x = cb_field body) (allowComments form) = Some x"
    by (cases "find (\<lambda>x. x = cb_field body) (allowComments form)") (auto simp: find_None_iff)
  moreover from this have "x = cb_field body" by (auto simp: find_Some_iff)
  ultimately have f: "find (\<lambda>x. x = cb_field body) (allowComments form) = Some (cb_field body)"
    by simp
  have di: "doc_id d = i" using assms(1) by (rule Document_get_doc_id)
  show ?thesis
    using assms(1,2,3,5) f di
    by (auto simp: createComment_def Comment_create_def Document_addComment_def Let_def)
qed

theorem createComment_closed_witness:
  "createComment st5 200 bob 3 \<lparr>cb_field = ''brief'', cb_content = ''late'', cb_decoration = None\<rparr>
     = (Inl ErrClosed, st5) \<and>
   (\<exists>k s'. createComment st4 200 bob 0 \<lparr>cb_field = ''brief'', cb_content = ''late'', cb_decoration = None\<rparr>
        = (Inr k, s') \<and> comments s' = comments st4 @ [k] \<and> com_user k = 2 \<and> com_document k = 0)"
proof -
  let ?f = "\<lparr>form_id = 7, slug = ''project'', allowComments = [''brief'']\<rparr>"
  let ?b = "\<lparr>cb_field = ''brief'', cb_content = ''late'', cb_decoration = None\<rparr>"
  have f5: "CustomForm_get st5 (customForm \<lparr>doc_id = 3, author = 3, customForm = 7, published = False,
             closed = None, currentVersion = 4, commentsCount = 0\<rparr>) = Some ?f"
    by (simp add: st5_eq CustomForm_get_def)
  have f4: "CustomForm_get st4 (customForm \<lparr>doc_id = 0, author = 1, customForm = 7, published = False,
             closed = None, currentVersion = 1, commentsCount = 2\<rparr>) = Some ?f"
    by (simp add: st4_eq CustomForm_get_def)
  have m: "cb_field ?b \<in> set (allowComments ?f)" and n: "cb_field ?b \<noteq> []" by simp_all
  have "createComment st5 200 bob 3 ?b = (Inl ErrClosed, st5)"
    using createComment_closed [OF Document_get_st5_3 _ f5 m n, where now = 200 and user = bob]
    by simp
  moreover have "\<exists>k s'. createComment st4 200 bob 0 ?b = (Inr k, s') \<and>
      comments s' = comments st4 @ [k] \<and> com_user k = 2 \<and> com_document k = 0"
    using createComment_closed [OF Document_get_st4_0 _ f4 m n, where now = 200 and user = bob]
    by (auto simp: bob_def)
  ultimately show ?thesis by blast
qed

section \<open>Liking a comment\<close>

text \<open>
  Claim C5, as the claim states it, fails: the route reads the author of the document named
  in the request before it creates a like, without testing that the document exists. Bob
  has no like on comment 2; his toggle through a document id that does not exist ends in a
  TypeError and no like is created.
\<close>

theorem likeComment_no_document_counterexample:
  "Like_get st4 (u_id bob) 2 = None \<and> Document_get st4 9 = None \<and>
   likeComment st4 bob 9 2 = (Inl TypeError, st4) \<and>
   Like_get (snd (likeComment st4 bob 9 2)) (u_id bob) 2 = None"
proof -
  have 1: "Like_get st4 (u_id bob) 2 = None" by (simp add: st4_eq Like_get_def)
  have 2: "Document_get st4 9 = None" by (simp add: st4_eq Document_get_def)
  from likeComment_no_document [OF 1 2] 1 2 show ?thesis by simp
qed

text \<open>
  Claim C5, amended. In every reachable state the toggle keeps at most one like per pair
  of user and comment. When the pair has a like, it is removed and the answer is the empty
  result; when it has none and the document named in the request exists, a like of the pair is
  created and answered, so the two answers differ. With an existing document, two toggles
  in a row by the same user on the same comment give back the liked state they started from.
  \<open>Like_get\<close> shows the new state of the pair after each toggle, and what it shows for
  every other pair does not change.
\<close>

theorem likeComment_toggle:
  assumes "reachable s"
  shows "(\<forall>l. Like_get s (u_id user) c = Some l \<longrightarrow>
            (\<exists>s'. likeComment s user i c = (Inr None, s') \<and>
               Like_get s' (u_id user) c = None \<and> set (likes s') = set (likes s) - {l})) \<and>
         (Like_get s (u_id user) c = None \<and> Document_get s i \<noteq> None \<longrightarrow>
            (\<exists>l s'. likeComment s user i c = (Inr (Some l), s') \<and>
               Like_get s' (u_id user) c = Some l \<and> like_user l = u_id user \<and>
               like_comment l = c \<and> likes s' = likes s @ [l])) \<and>
         (Document_get s i \<noteq> None \<longrightarrow>
            liked (snd (likeComment (snd (likeComment s user i c)) user i c)) (u_id user) c =
            liked s (u_id user) c) \<and>
         distinct (map (\<lambda>l. (like_user l, like_comment l))
           (likes (snd (likeComment s user i c)))) \<and>
         (\<forall>u' c'. (u', c') \<noteq> (u_id user, c) \<longrightarrow>
            Like_get (snd (likeComment s user i c)) u' c' = Like_get s u' c')"
proof (intro conjI allI impI)
  from assms have inv: "likes_inv s" by (rule reachable_likes_inv)
  {
    fix l assume "Like_get s (u_id user) c = Some l"
    then show "\<exists>s'. likeComment s user i c = (Inr None, s') \<and>
               Like_get s' (u_id user) c = None \<and> set (likes s') = set (likes s) - {l}"
      by (rule toggle_off [OF inv])
  next
    assume h: "Like_get s (u_id user) c = None \<and> Document_get s i \<noteq> None"
    then obtain p where "Document_get s i = Some p" by blast
    moreover obtain d cv where "p = (d, cv)" by (cases p)
    ultimately have "Document_get s i = Some (d, cv)" by simp
    with h show "\<exists>l s'. likeComment s user i c = (Inr (Some l), s') \<and>
               Like_get s' (u_id user) c = Some l \<and> like_user l = u_id user \<and>
               like_comment l = c \<and> likes s' = likes s @ [l]"
      by (intro toggle_on) simp_all
  next
    assume "Document_get s i \<noteq> None"
    then obtain p where "Document_get s i = Some p" by blast
    moreover obtain d cv where "p = (d, cv)" by (cases p)
    ultimately have "Document_get s i = Some (d, cv)" by simp
    then show "liked (snd (likeComment (snd (likeComment s user i c)) user i c)) (u_id user) c =
            liked s (u_id user) c"
      by (rule toggle_twice [OF inv])
  next
    show "distinct (map (\<lambda>l. (like_user l, like_comment l))
           (likes (snd (likeComment s user i c))))"
      using likeComment_likes_inv [OF inv, of user i c] by (simp add: likes_inv_def)
  next
    fix u' c' assume "(u', c') \<noteq> (u_id user, c)"
    then show "Like_get (snd (likeComment s user i c)) u' c' = Like_get s u' c'"
      by (rule toggle_other_pairs [OF inv])
  }
qed

theorem likeComment_toggle_witness:
  "Like_get st4 (u_id bob) 2 = None \<and> Document_get st4 0 \<noteq> None \<and>
   (\<exists>l s'. likeComment st4 bob 0 2 = (Inr (Some l), s') \<and> Like_get s' (u_id bob) 2 = Some l \<and>
      (\<exists>s''. likeComment s' bob 0 2 = (Inr None, s'') \<and> Like_get s'' (u_id bob) 2 = None)) \<and>
   liked (snd (likeComment (snd (likeComment st4 bob 0 2)) bob 0 2)) (u_id bob) 2 =
     liked st4 (u_id bob) 2 \<and>
   Like_get (snd (likeComment st4 bob 0 2)) (u_id alice) 5 = Like_get st4 (u_id alice) 5"
proof -
  have 1: "Like_get st4 (u_id bob) 2 = None" by (simp add: st4_eq Like_get_def)
  have 2: "Document_get st4 0 \<noteq> None" by (simp add: Document_get_st4_0)
  note t = likeComment_toggle [OF reachable_st4, of bob 2 0]
  from t [THEN conjunct2, THEN conjunct1] 1 2 obtain l s' where
    3: "likeComment st4 bob 0 2 = (Inr (Some l), s')" and 4: "Like_get s' (u_id bob) 2 = Some l"
    by blast
  have "reachable (snd (likeComment st4 bob 0 2))"
    by (rule r_likeComment [OF reachable_st4])
  with 3 have "reachable s'" by simp
  from likeComment_toggle [OF this, of bob 2 0, THEN conjunct1] 4 obtain s'' where
    5: "likeComment s' bob 0 2 = (Inr None, s'')" and 6: "Like_get s'' (u_id bob) 2 = None"
    by blast
  have 7: "liked (snd (likeComment (snd (likeComment st4 bob 0 2)) bob 0 2)) (u_id bob) 2 =
     liked st4 (u_id bob) 2"
    using t [THEN conjunct2, THEN conjunct2, THEN conjunct1] 2 by (rule mp)
  have "(u_id alice, 5::nat) \<noteq> (u_id bob, 2)" by simp
  with t [THEN conjunct2, THEN conjunct2, THEN conjunct2, THEN conjunct2]
  have 8: "Like_get (snd (likeComment st4 bob 0 2)) (u_id alice) 5 = Like_get st4 (u_id alice) 5"
    by blast
  have 9: "\<exists>l s'. likeComment st4 bob 0 2 = (Inr (Some l), s') \<and> Like_get s' (u_id bob) 2 = Some l \<and>
      (\<exists>s''. likeComment s' bob 0 2 = (Inr None, s'') \<and> Like_get s'' (u_id bob) 2 = None)"
    apply (rule exI [of _ l], rule exI [of _ s'])
    apply (intro conjI)
      apply (rule 3)
     apply (rule 4)
    apply (rule exI [of _ s''])
    apply (intro conjI)
     apply (rule 5)
    apply (rule 6)
    done
  from 1 2 9 7 8 show ?thesis by (intro conjI)
qed

text \<open>
  Claim C6, as the claim states it, fails: the route does not look at the comment's author.
  Alice is the author of document 0 and of comment 5 on it; when she likes her own comment
  the comment-liked notification is posted.
\<close>

theorem likeComment_own_comment_counterexample:
  "find (\<lambda>k. com_id k = 5) (comments st4) =
     Some \<lparr>com_id = 5, com_user = 1, com_document = 0, com_version = 1,
          field = ''brief'', com_content = ''note'', decoration = None,
          resolved = False, reply = None\<rparr> \<and>
   u_id alice = 1 \<and>
   outbox (snd (likeComment st4 alice 0 5)) =
     outbox st4 @ [CommentNotification ''comment-liked'' 5]"
proof -
  have n: "Like_get st4 (u_id alice) 5 = None"
    by (simp add: st4_eq Like_get_def)
  have a: "u_id alice = author \<lparr>doc_id = 0, author = 1, customForm = 7, published = False,
             closed = None, currentVersion = 1, commentsCount = 2\<rparr>"
    by (simp add: alice_def)
  have "outbox (snd (likeComment st4 alice 0 5)) =
     outbox st4 @ [CommentNotification ''comment-liked'' 5]"
    by (simp add: st4_eq alice_def likeComment_def store_defs Let_def)
  moreover have "find (\<lambda>k. com_id k = 5) (comments st4) =
     Some \<lparr>com_id = 5, com_user = 1, com_document = 0, com_version = 1,
          field = ''brief'', com_content = ''note'', decoration = None,
          resolved = False, reply = None\<rparr>"
    by (simp add: st4_eq)
  ultimately show ?thesis by (simp add: alice_def)
qed

text \<open>
  Claim C6, amended. The comment-liked notification is posted exactly when the toggle
  creates a like and the liker is the author of the document named in the request, whoever
  wrote the comment; in every other case (a removal, a liker who is not that author, a
  document that does not exist) the outbox stays as it was.
\<close>

theorem likeComment_notification:
  "(Like_get s (u_id user) idComment = None \<and> Document_get s i = Some (d, cv) \<and>
    author d = u_id user \<longrightarrow>
      (\<exists>l. fst (likeComment s user i idComment) = Inr (Some l)) \<and>
      outbox (snd (likeComment s user i idComment)) =
        outbox s @ [CommentNotification ''comment-liked'' idComment]) \<and>
   (\<not> (Like_get s (u_id user) idComment = None \<and>
       (\<exists>d cv. Document_get s i = Some (d, cv) \<and> author d = u_id user)) \<longrightarrow>
      outbox (snd (likeComment s user i idComment)) = outbox s)"
  by (auto simp: likeComment_def Like_create_def Like_remove_def sendCommentNotification_def
      Let_def split: option.splits)

theorem likeComment_notification_witness:
  "outbox (snd (likeComment st4 alice 0 2)) = outbox st4 @ [CommentNotification ''comment-liked'' 2] \<and>
   outbox (snd (likeComment st4 bob 0 5)) = outbox st4 \<and>
   outbox (snd (likeComment (snd (likeComment st4 alice 0 2)) alice 0 2)) =
     outbox (snd (likeComment st4 alice 0 2))"
proof -
  have n: "Like_get st4 (u_id alice) 2 = None" "Like_get st4 (u_id bob) 5 = None"
    by (simp_all add: st4_eq Like_get_def)
  have a: "author \<lparr>doc_id = 0, author = 1, customForm = 7, published = False,
             closed = None, currentVersion = 1, commentsCount = 2\<rparr> = u_id alice"
    by (simp add: alice_def)
  have 1: "outbox (snd (likeComment st4 alice 0 2)) = outbox st4 @ [CommentNotification ''comment-liked'' 2]"
    using likeComment_notification [of st4 alice 2 0, THEN conjunct1] n(1) Document_get_st4_0 a
    by blast
  have 2: "outbox (snd (likeComment st4 bob 0 5)) = outbox st4"
    using likeComment_notification [of st4 bob 5 0, THEN conjunct2] Document_get_st4_0
    by (simp add: bob_def)
  have "Like_get (snd (likeComment st4 alice 0 2)) (u_id alice) 2 \<noteq> None"
    by (simp add: st4_eq alice_def likeComment_def store_defs Let_def)
  then have 3: "outbox (snd (likeComment (snd (likeComment st4 alice 0 2)) alice 0 2)) =
     outbox (snd (likeComment st4 alice 0 2))"
    using likeComment_notification [of "snd (likeComment st4 alice 0 2)" alice 2 0, THEN conjunct2]
    by simp
  from 1 2 3 show ?thesis by blast
qed

section \<open>Resolving and replying\<close>

lemma resolve_map_idem:
  "map (\<lambda>x. if com_id x = i then x\<lparr>resolved := True\<rparr> else x)
     (map (\<lambda>x. if com_id x = i then x\<lparr>resolved := True\<rparr> else x) xs) =
   map (\<lambda>x. if com_id x = i then x\<lparr>resolved := True\<rparr> else x) xs"
  by (induction xs) auto

lemma resolveComment_by_author:
  assumes "Document_get s i = Some (d, cv)"
    and "find (\<lambda>k. com_id k = idComment) (comments s) = Some c"
    and "u_id user = author d"
  shows "resolveComment s user i idComment =
    (Inr (c\<lparr>resolved := True\<rparr>),
     s\<lparr>comments := map (\<lambda>x. if com_id x = idComment then x\<lparr>resolved := True\<rparr> else x) (comments s),
       outbox := outbox s @ [CommentNotification ''comment-resolved'' idComment]\<rparr>)"
  using assms by (simp add: resolveComment_def Comment_resolve_def sendCommentNotification_def)

lemma replyComment_by_author:
  assumes "Document_get s i = Some (d, cv)"
    and "find (\<lambda>k. com_id k = idComment) (comments s) = Some c"
    and "u_id user = author d"
  shows "replyComment s user i idComment r =
    (Inr (c\<lparr>reply := r\<rparr>),
     s\<lparr>comments := map (\<lambda>x. if com_id x = idComment then x\<lparr>reply := r\<rparr> else x) (comments s)\<rparr>)"
  using assms by (simp add: replyComment_def Comment_reply_def)

text \<open>
  Claim C7. Resolving a comment through an existing document: a user who is not the
  document's author gets \<open>ErrForbidden\<close> and nothing changes; for the author the comment
  is answered and stored with resolved = true, and resolving it again succeeds with the same
  answer and leaves the comments as they are.
\<close>

theorem resolveComment_author_only:
  assumes "Document_get s i = Some (d, cv)"
    and "find (\<lambda>k. com_id k = idComment) (comments s) = Some c"
  shows "(u_id user \<noteq> author d \<longrightarrow> resolveComment s user i idComment = (Inl ErrForbidden, s)) \<and>
         (u_id user = author d \<longrightarrow>
            (\<exists>s'. resolveComment s user i idComment = (Inr (c\<lparr>resolved := True\<rparr>), s') \<and>
               find (\<lambda>k. com_id k = idComment) (comments s') = Some (c\<lparr>resolved := True\<rparr>) \<and>
               (\<forall>k \<in> set (comments s'). com_id k = idComment \<longrightarrow> resolved k) \<and>
               (\<exists>s''. resolveComment s' user i idComment = (Inr (c\<lparr>resolved := True\<rparr>), s'') \<and>
                  comments s'' = comments s')))"
proof (intro conjI impI)
  assume "u_id user \<noteq> author d"
  with assms(1) show "resolveComment s user i idComment = (Inl ErrForbidden, s)"
    by (simp add: resolveComment_def)
next
  assume a: "u_id user = author d"
  define s' where "s' = s\<lparr>comments := map (\<lambda>x. if com_id x = idComment then x\<lparr>resolved := True\<rparr> else x) (comments s),
       outbox := outbox s @ [CommentNotification ''comment-resolved'' idComment]\<rparr>"
  have 1: "resolveComment s user i idComment = (Inr (c\<lparr>resolved := True\<rparr>), s')"
    unfolding s'_def by (rule resolveComment_by_author [OF assms a])
  have 2: "find (\<lambda>k. com_id k = idComment) (comments s') = Some (c\<lparr>resolved := True\<rparr>)"
    using assms(2)
    by (simp add: s'_def find_map_same_id [where key = com_id and g = "\<lambda>x. x\<lparr>resolved := True\<rparr>"])
  have cs: "comments s' = map (\<lambda>x. if com_id x = idComment then x\<lparr>resolved := True\<rparr> else x) (comments s)"
    by (simp add: s'_def)
  have 3: "\<forall>k \<in> set (comments s'). com_id k = idComment \<longrightarrow> resolved k"
    unfolding cs by (rule map_upd_ball) simp_all
  have "Document_get s' i = Document_get s i"
    by (rule Document_get_frame) (simp_all add: s'_def)
  with assms(1) have dg: "Document_get s' i = Some (d, cv)" by simp
  have 4: "resolveComment s' user i idComment =
      (Inr (c\<lparr>resolved := True\<rparr>),
       s'\<lparr>comments := map (\<lambda>x. if com_id x = idComment then x\<lparr>resolved := True\<rparr> else x) (comments s'),
          outbox := outbox s' @ [CommentNotification ''comment-resolved'' idComment]\<rparr>)"
    using resolveComment_by_author [OF dg 2 a] by simp
  have 5: "map (\<lambda>x. if com_id x = idComment then x\<lparr>resolved := True\<rparr> else x) (comments s') = comments s'"
    by (simp add: s'_def resolve_map_idem)
  show "\<exists>s'. resolveComment s user i idComment = (Inr (c\<lparr>resolved := True\<rparr>), s') \<and>
               find (\<lambda>k. com_id k = idComment) (comments s') = Some (c\<lparr>resolved := True\<rparr>) \<and>
               (\<forall>k \<in> set (comments s'). com_id k = idComment \<longrightarrow> resolved k) \<and>
               (\<exists>s''. resolveComment s' user i idComment = (Inr (c\<lparr>resolved := True\<rparr>), s'') \<and>
                  comments s'' = comments s')"
    apply (rule exI [of _ s'])
    apply (intro conjI)
       apply (rule 1)
      apply (rule 2)
     apply (rule 3)
    apply (rule exI)
    apply (rule conjI)
     apply (rule 4)
    apply (simp add: 5)
    done
qed

theorem resolveComment_author_only_witness:
  "resolveComment st5 bob 0 2 = (Inl ErrForbidden, st5) \<and>
   (\<exists>c s'. resolveComment st5 alice 0 2 = (Inr c, s') \<and> resolved c \<and>
      (\<forall>k \<in> set (comments s'). com_id k = 2 \<longrightarrow> resolved k) \<and>
      (\<exists>s''. resolveComment s' alice 0 2 = (Inr c, s'') \<and> comments s'' = comments s'))"
proof -
  note r = resolveComment_author_only [OF Document_get_st5_0 comment_2_st5, simplified]
  have "resolveComment st5 bob 0 2 = (Inl ErrForbidden, st5)"
    using r [of bob] by (simp add: bob_def)
  moreover have "\<exists>c s'. resolveComment st5 alice 0 2 = (Inr c, s') \<and> resolved c \<and>
      (\<forall>k \<in> set (comments s'). com_id k = 2 \<longrightarrow> resolved k) \<and>
      (\<exists>s''. resolveComment s' alice 0 2 = (Inr c, s'') \<and> comments s'' = comments s')"
    using r [of alice] by (auto simp: alice_def)
  ultimately show ?thesis by blast
qed

text \<open>
  Claim C10. Neither resolve nor reply looks at the document the comment was made on: for
  a document whose author is the acting user and any existing comment \<open>c\<close> (nothing is
  assumed about \<open>com_document c\<close>), resolve stores resolved = true on \<open>c\<close> and reply
  overwrites its reply.
\<close>

theorem resolve_reply_ignore_comment_document:
  assumes "Document_get s i = Some (d, cv)" and "u_id user = author d"
    and "find (\<lambda>k. com_id k = idComment) (comments s) = Some c"
  shows "(\<exists>s'. resolveComment s user i idComment = (Inr (c\<lparr>resolved := True\<rparr>), s') \<and>
            find (\<lambda>k. com_id k = idComment) (comments s') = Some (c\<lparr>resolved := True\<rparr>)) \<and>
         (\<exists>s'. replyComment s user i idComment r = (Inr (c\<lparr>reply := r\<rparr>), s') \<and>
            find (\<lambda>k. com_id k = idComment) (comments s') = Some (c\<lparr>reply := r\<rparr>))"
proof -
  have "find (\<lambda>k. com_id k = idComment)
          (map (\<lambda>x. if com_id x = idComment then x\<lparr>resolved := True\<rparr> else x) (comments s)) =
        Some (c\<lparr>resolved := True\<rparr>)"
    using assms(3) by (simp add: find_map_same_id [where key = com_id and g = "\<lambda>x. x\<lparr>resolved := True\<rparr>"])
  moreover have "find (\<lambda>k. com_id k = idComment)
          (map (\<lambda>x. if com_id x = idComment then x\<lparr>reply := r\<rparr> else x) (comments s)) =
        Some (c\<lparr>reply := r\<rparr>)"
    using assms(3) by (simp add: find_map_same_id [where key = com_id and g = "\<lambda>x. x\<lparr>reply := r\<rparr>"])
  ultimately show ?thesis
    by (simp add: resolveComment_by_author [OF assms(1,3,2)] replyComment_by_author [OF assms(1,3,2)])
qed

theorem resolve_reply_ignore_comment_document_witness:
  "(\<exists>c. find (\<lambda>k. com_id k = 2) (comments st5) = Some c \<and> com_document c = 0) \<and>
   (\<exists>c s'. resolveComment st5 carol 3 2 = (Inr c, s') \<and> resolved c \<and> com_document c = 0 \<and>
      find (\<lambda>k. com_id k = 2) (comments s') = Some c) \<and>
   (\<exists>c s'. replyComment st5 carol 3 2 (Some ''no'') = (Inr c, s') \<and> reply c = Some ''no'' \<and>
      com_document c = 0 \<and> find (\<lambda>k. com_id k = 2) (comments s') = Some c)"
proof -
  have a: "u_id carol = author \<lparr>doc_id = 3, author = 3, customForm = 7, published = False,
             closed = None, currentVersion = 4, commentsCount = 0\<rparr>"
    by (simp add: carol_def)
  from resolve_reply_ignore_comment_document [OF Document_get_st5_3 a comment_2_st5, of "Some ''no''"]
  obtain s1 s2 where
    "resolveComment st5 carol 3 2 =
       (Inr (\<lparr>com_id = 2, com_user = 2, com_document = 0, com_version = 1,
          field = ''brief'', com_content = ''typo'', decoration = None,
          resolved = False, reply = None\<rparr>\<lparr>resolved := True\<rparr>), s1)"
    "find (\<lambda>k. com_id k = 2) (comments s1) =
       Some (\<lparr>com_id = 2, com_user = 2, com_document = 0, com_version = 1,
          field = ''brief'', com_content = ''typo'', decoration = None,
          resolved = False, reply = None\<rparr>\<lparr>resolved := True\<rparr>)"
    "replyComment st5 carol 3 2 (Some ''no'') =
       (Inr (\<lparr>com_id = 2, com_user = 2, com_document = 0, com_version = 1,
          field = ''brief'', com_content = ''typo'', decoration = None,
          resolved = False, reply = None\<rparr>\<lparr>reply := Some ''no''\<rparr>), s2)"
    "find (\<lambda>k. com_id k = 2) (comments s2) =
       Some (\<lparr>com_id = 2, com_user = 2, com_document = 0, com_version = 1,
          field = ''brief'', com_content = ''typo'', decoration = None,
          resolved = False, reply = None\<rparr>\<lparr>reply := Some ''no''\<rparr>)"
    by blast
  then show ?thesis by (simp add: comment_2_st5)
qed

section \<open>Reading a document\<close>

text \<open>
  Claim C8. The closed flag in the answer of a read is derived from the closing date of the
  current version's content and the current time: for a closing date \<open>t\<close> it is true
  exactly when \<open>t < now\<close>, and it is false when the content has no closing date. The
  flag stored on the document (\<open>closed d\<close>, written by an earlier update from the caller's
  input) is arbitrary here and does not enter the answer.
\<close>

theorem getDocument_closed_derived:
  assumes "Document_get s i = Some (d, Some v)" and "ver_content v = Some c"
    and "published d \<or> (\<exists>u. user = Some u \<and> u_id u = author d)"
  shows "\<exists>p. getDocument s now user i = Inr p \<and>
           closed (p_document p) = Some (date_gt (Some now) (new_Date (closingDate c))) \<and>
           (\<forall>t. closingDate c = DateString t \<longrightarrow> closed (p_document p) = Some (t < now)) \<and>
           (closingDate c = Undefined \<longrightarrow> closed (p_document p) = Some False)"
  using assms by (auto simp: getDocument_def Let_def split: option.splits)

theorem getDocument_closed_derived_witness:
  "(\<exists>d v. Document_get st5 0 = Some (d, v) \<and> closed d = Some True) \<and>
   (\<exists>p. getDocument st5 200 None 0 = Inr p \<and> closed (p_document p) = Some False) \<and>
   (\<exists>p. getDocument st5 600 None 0 = Inr p \<and> closed (p_document p) = Some True)"
proof -
  note g = getDocument_closed_derived [OF Document_get_st5_0, simplified]
  have "\<exists>p. getDocument st5 200 None 0 = Inr p \<and> closed (p_document p) = Some False"
    using g [where user = None and now = 200] by auto
  moreover have "\<exists>p. getDocument st5 600 None 0 = Inr p \<and> closed (p_document p) = Some True"
    using g [where user = None and now = 600] by auto
  ultimately show ?thesis using Document_get_st5_0 by simp
qed

text \<open>
  Claim C9. For a document that is not published, reading succeeds only for its author:
  every other requester, the anonymous one included, gets \<open>ErrForbidden\<close>. A published
  document is answered to any requester, with \<open>isAuthor\<close> true exactly when the requester
  is the author. The document is one whose current version resolves and has a content
  (the route reads its closing date before it looks at \<open>published\<close>).
\<close>

theorem getDocument_draft_author_only:
  assumes "Document_get s i = Some (d, Some v)" and "ver_content v = Some c"
  shows "(\<not> published d \<and> (\<forall>u. user = Some u \<longrightarrow> u_id u \<noteq> author d) \<longrightarrow>
            getDocument s now user i = Inl ErrForbidden) \<and>
         (\<not> published d \<and> (\<exists>u. user = Some u \<and> u_id u = author d) \<longrightarrow>
            (\<exists>p. getDocument s now user i = Inr p \<and> isAuthor p)) \<and>
         (published d \<longrightarrow>
            (\<exists>p. getDocument s now user i = Inr p \<and> p_currentVersion p = v \<and>
               p_document p = d\<lparr>closed := Some (date_gt (Some now) (new_Date (closingDate c)))\<rparr> \<and>
               (isAuthor p \<longleftrightarrow> (\<exists>u. user = Some u \<and> u_id u = author d))))"
  using assms by (auto simp: getDocument_def Let_def split: option.splits)

theorem getDocument_draft_author_only_witness:
  "getDocument st5 50 None 3 = Inl ErrForbidden \<and>
   getDocument st5 50 (Some bob) 3 = Inl ErrForbidden \<and>
   (\<exists>p. getDocument st5 50 (Some carol) 3 = Inr p \<and> isAuthor p) \<and>
   (\<exists>p. getDocument st5 50 None 0 = Inr p \<and> \<not> isAuthor p) \<and>
   (\<exists>p. getDocument st5 50 (Some alice) 0 = Inr p \<and> isAuthor p)"
proof -
  note d3 = getDocument_draft_author_only [OF Document_get_st5_3, simplified]
  note d0 = getDocument_draft_author_only [OF Document_get_st5_0, simplified]
  have "getDocument st5 50 None 3 = Inl ErrForbidden"
    using d3 [where user = None and now = 50] by simp
  moreover have "getDocument st5 50 (Some bob) 3 = Inl ErrForbidden"
    using d3 [where user = "Some bob" and now = 50] by (simp add: bob_def)
  moreover have "\<exists>p. getDocument st5 50 (Some carol) 3 = Inr p \<and> isAuthor p"
    using d3 [where user = "Some carol" and now = 50] by (simp add: carol_def)
  moreover have "\<exists>p. getDocument st5 50 None 0 = Inr p \<and> \<not> isAuthor p"
    using d0 [where user = None and now = 50] by auto
  moreover have "\<exists>p. getDocument st5 50 (Some alice) 0 = Inr p \<and> isAuthor p"
    using d0 [where user = "Some alice" and now = 50] by (auto simp: alice_def)
  ultimately show ?thesis by blast
qed

end
